(* ===== verification/Prelude.thy ===== *)
theory Prelude
  imports
    Complex_Main
    "HOL-Library.Sublist"
    "HOL-Library.Multiset"
    "HOL-Library.List_Lexorder"
    "HOL-Library.Char_ord"
begin

text \<open>
  Shared vocabulary of the catalogue-page development: the names of the model's basic
  types, the theorem collections the component theories fill, and generic lemmas on lists
  and multisets that several components use (chunking a list into pages, filters as
  sub-multisets, sortedness under reversal).
\<close>

type_synonym js_string = string
  \<comment> \<open>a JavaScript string, held as its UTF-8 bytes\<close>

named_theorems model_defs
  "definitions unfolded when a concrete page state is evaluated"

named_theorems inv_simps
  "facts that decide the page invariant after one event"

subsection \<open>Chunks of a list\<close>

text \<open>
  The pages of a result are the chunks \<open>take k (drop (i * k) xs)\<close>; concatenating the first
  \<open>n\<close> chunks gives back the first \<open>n * k\<close> elements.
\<close>

lemma concat_chunks_take:
  "concat (map (\<lambda>i. take k (drop (i * k) xs)) [0..<n]) = take (n * k) xs"
proof (induction n)
  case 0
  then show ?case by simp
next
  case (Suc n)
  have "take (n * k) xs @ take k (drop (n * k) xs) = take (n * k + k) xs"
    by (simp add: take_add)
  with Suc show ?case by (simp add: add.commute)
qed

lemma concat_chunks:
  assumes "length xs \<le> n * k"
  shows "concat (map (\<lambda>i. take k (drop (i * k) xs)) [0..<n]) = xs"
  using assms by (simp add: concat_chunks_take)

lemma length_chunk:
  "length (take k (drop (i * k) xs)) = min k (length xs - i * k)"
  by simp

subsection \<open>Filters and permutations\<close>

lemma mset_filter_subseteq [simp]: "mset (filter P xs) \<subseteq># mset xs"
  by (simp add: multiset_filter_subset)

lemma set_mset_eq_filter:
  "mset ys = mset (filter P xs) \<Longrightarrow> y \<in> set ys \<Longrightarrow> y \<in> set xs \<and> P y"
  by (metis mem_Collect_eq set_filter set_mset_mset)

lemma sorted_rev_map_iff:
  "sorted (rev (map f xs)) \<longleftrightarrow> sorted_wrt (\<lambda>a b. f b \<le> f a) xs"
  by (simp add: sorted_wrt_rev sorted_wrt_map)

end
