(* ===== verification/Js_Runtime.thy ===== *)
theory Js_Runtime
  imports Prelude
begin

text \<open>
  The parts of the JavaScript runtime that the page script calls, each modelled after its
  ECMAScript definition on the values the script passes it: \<open>String.prototype.trim\<close>,
  \<open>toLowerCase\<close> and \<open>includes\<close>; the numbers that \<open>parseFloat\<close> returns and the
  \<open>||\<close> default; \<open>Array.prototype.slice\<close>; \<open>Set.prototype.add\<close> on an insertion-ordered
  set; and \<open>Array.prototype.sort\<close> with a comparator. Strings are UTF-8 byte lists; the
  case mapping covers ASCII and the Latin-1 letters (two-byte sequences after \<open>0xC3\<close>).
  White space, for \<open>trim\<close> and for the prefix \<open>parseFloat\<close> skips, is the ASCII white
  space only: the no-break space, the byte order mark and the other Unicode spaces that
  ECMAScript also strips are kept. \<open>parseFloat\<close> returns the exact rational value of the
  decimal it reads, without the overflow to Infinity or the underflow to zero of a double.
\<close>

subsection \<open>Strings\<close>

definition js_is_space :: "char \<Rightarrow> bool" where
  "js_is_space c \<longleftrightarrow>
     c = CHR 0x09 \<or> c = CHR 0x0A \<or> c = CHR 0x0B \<or> c = CHR 0x0C \<or> c = CHR 0x0D \<or> c = CHR 0x20"

definition js_trim :: "js_string \<Rightarrow> js_string" where
  "js_trim s = rev (dropWhile js_is_space (rev (dropWhile js_is_space s)))"

definition ascii_upper :: "char \<Rightarrow> bool" where
  "ascii_upper c \<longleftrightarrow> CHR ''A'' \<le> c \<and> c \<le> CHR ''Z''"

definition latin1_upper :: "char \<Rightarrow> bool" where
  \<comment> \<open>second byte of U+00C0 .. U+00DE, without U+00D7 (the multiplication sign)\<close>
  "latin1_upper d \<longleftrightarrow> CHR 0x80 \<le> d \<and> d \<le> CHR 0x9E \<and> d \<noteq> CHR 0x97"

definition shift_case :: "char \<Rightarrow> char" where
  "shift_case c = char_of (of_char c + (32::nat))"

fun js_to_lower :: "js_string \<Rightarrow> js_string" where
  "js_to_lower [] = []"
| "js_to_lower [c] = [if ascii_upper c then shift_case c else c]"
| "js_to_lower (c # d # ds) =
     (if ascii_upper c then shift_case c # js_to_lower (d # ds)
      else if c = CHR 0xC3 \<and> latin1_upper d then c # shift_case d # js_to_lower ds
      else c # js_to_lower (d # ds))"

fun js_includes :: "'a list \<Rightarrow> 'a list \<Rightarrow> bool" where
  "js_includes [] q \<longleftrightarrow> q = []"
| "js_includes (h # hs) q \<longleftrightarrow> prefix q (h # hs) \<or> js_includes hs q"

subsection \<open>Numbers\<close>

text \<open>
  The JavaScript numbers the script meets: finite values (exact rationals here, the
  decimal literals of the catalogue and of the price inputs), the two infinities, and NaN.
\<close>

datatype jsnum = JNum rat | JInf | JNegInf | JNaN

text \<open>\<open>x || d\<close> on a number: \<open>0\<close>, \<open>-0\<close> and NaN are falsy and give \<open>d\<close>.\<close>

fun js_or :: "jsnum \<Rightarrow> jsnum \<Rightarrow> jsnum" where
  "js_or (JNum r) d = (if r = 0 then d else JNum r)"
| "js_or JNaN d = d"
| "js_or x d = x"

fun js_less :: "rat \<Rightarrow> jsnum \<Rightarrow> bool" where
  "js_less x (JNum r) \<longleftrightarrow> x < r"
| "js_less x JInf \<longleftrightarrow> True"
| "js_less x JNegInf \<longleftrightarrow> False"
| "js_less x JNaN \<longleftrightarrow> False"

fun js_greater :: "rat \<Rightarrow> jsnum \<Rightarrow> bool" where
  "js_greater x (JNum r) \<longleftrightarrow> r < x"
| "js_greater x JInf \<longleftrightarrow> False"
| "js_greater x JNegInf \<longleftrightarrow> True"
| "js_greater x JNaN \<longleftrightarrow> False"

text \<open>
  \<open>parseFloat\<close>: leading white space is skipped, then the longest prefix that is a
  decimal literal (optional sign, digits with an optional fraction and exponent, or
  \<open>Infinity\<close>) is read; without such a prefix the result is NaN. The value is kept exact.
\<close>

definition is_digit :: "char \<Rightarrow> bool" where
  "is_digit c \<longleftrightarrow> CHR ''0'' \<le> c \<and> c \<le> CHR ''9''"

fun digits_value :: "js_string \<Rightarrow> nat \<Rightarrow> nat" where
  "digits_value [] acc = acc"
| "digits_value (c # cs) acc = digits_value cs (10 * acc + (of_char c - 48))"

definition parse_exponent :: "js_string \<Rightarrow> int" where
  "parse_exponent r =
     (case r of
       [] \<Rightarrow> 0
     | c # r' \<Rightarrow>
         if c = CHR ''e'' \<or> c = CHR ''E'' then
           (let (sg, r'') = (case r' of
                               d # ds \<Rightarrow> if d = CHR ''-'' then (-1, ds)
                                         else if d = CHR ''+'' then (1, ds) else (1, r')
                             | [] \<Rightarrow> (1, []));
                ds = takeWhile is_digit r''
            in if ds = [] then 0 else sg * int (digits_value ds 0))
         else 0)"

definition scale10 :: "int \<Rightarrow> rat" where
  "scale10 e = (if 0 \<le> e then 10 ^ nat e else 1 / 10 ^ nat (- e))"

definition parse_unsigned :: "js_string \<Rightarrow> jsnum" where
  "parse_unsigned s =
     (if prefix ''Infinity'' s then JInf
      else
        let ip = takeWhile is_digit s;
            r1 = drop (length ip) s;
            dot = (r1 \<noteq> [] \<and> hd r1 = CHR ''.'');
            fp = (if dot then takeWhile is_digit (tl r1) else []);
            r2 = (if dot then drop (length fp) (tl r1) else r1)
        in if ip = [] \<and> fp = [] then JNaN
           else JNum (of_nat (digits_value (ip @ fp) 0) / 10 ^ length fp * scale10 (parse_exponent r2)))"

fun js_negate :: "jsnum \<Rightarrow> jsnum" where
  "js_negate (JNum r) = JNum (- r)"
| "js_negate JInf = JNegInf"
| "js_negate JNegInf = JInf"
| "js_negate JNaN = JNaN"

definition parse_float :: "js_string \<Rightarrow> jsnum" where
  "parse_float s =
     (case dropWhile js_is_space s of
       [] \<Rightarrow> JNaN
     | c # r \<Rightarrow> if c = CHR ''-'' then js_negate (parse_unsigned r)
                else if c = CHR ''+'' then parse_unsigned r
                else parse_unsigned (c # r))"

subsection \<open>Arrays\<close>

text \<open>A relative index of \<open>slice\<close>: negative counts from the end, both clamped to the array.\<close>

definition js_rel_index :: "int \<Rightarrow> nat \<Rightarrow> nat" where
  "js_rel_index k len = (if k < 0 then nat (max (int len + k) 0) else nat (min k (int len)))"

definition js_slice :: "'a list \<Rightarrow> int \<Rightarrow> int \<Rightarrow> 'a list" where
  "js_slice xs s e =
     (let len = length xs; from = js_rel_index s len; to = js_rel_index e len
      in take (to - from) (drop from xs))"

text \<open>\<open>Set.prototype.add\<close>: a new value goes to the end of the insertion order.\<close>

definition js_set_add :: "'a list \<Rightarrow> 'a \<Rightarrow> 'a list" where
  "js_set_add xs x = (if x \<in> set xs then xs else xs @ [x])"

text \<open>
  \<open>Array.prototype.sort\<close> with a comparator is stable (ECMAScript 2019); with a consistent
  comparator its result is the unique stable ordering, which insertion sort computes: each
  element, taken from the back, goes before the first element it does not compare greater
  than.
\<close>

fun js_insert :: "('a \<Rightarrow> 'a \<Rightarrow> rat) \<Rightarrow> 'a \<Rightarrow> 'a list \<Rightarrow> 'a list" where
  "js_insert cmp x [] = [x]"
| "js_insert cmp x (y # ys) = (if cmp x y \<le> 0 then x # y # ys else y # js_insert cmp x ys)"

definition js_sort :: "('a \<Rightarrow> 'a \<Rightarrow> rat) \<Rightarrow> 'a list \<Rightarrow> 'a list" where
  "js_sort cmp xs = foldr (js_insert cmp) xs []"

subsection \<open>Properties of the runtime model\<close>

lemmas parse_float_simps = parse_float_def parse_unsigned_def is_digit_def parse_exponent_def
  scale10_def js_is_space_def

declare parse_float_simps [model_defs] js_trim_def [model_defs] ascii_upper_def [model_defs]
  shift_case_def [model_defs] latin1_upper_def [model_defs] char_of_def [model_defs] bit_0 [model_defs]

text \<open>\<open>includes\<close> is the contiguous-sublist relation of the library.\<close>

lemma js_includes_sublist: "js_includes hay q \<longleftrightarrow> sublist q hay"
  by (induction hay) (auto simp: sublist_Cons_right)

lemma js_slice_nonneg:
  assumes "0 \<le> s" "s \<le> e"
  shows "js_slice xs s e = take (nat (e - s)) (drop (nat s) xs)"
proof (cases "s \<le> int (length xs)")
  case True
  then have "js_rel_index s (length xs) = nat s" using assms by (simp add: js_rel_index_def)
  moreover have "take (js_rel_index e (length xs) - nat s) (drop (nat s) xs) = take (nat (e - s)) (drop (nat s) xs)"
    using assms True by (simp add: js_rel_index_def min_def nat_diff_distrib take_all)
  ultimately show ?thesis by (simp add: js_slice_def Let_def)
next
  case False
  then show ?thesis using assms by (simp add: js_slice_def js_rel_index_def)
qed

lemma set_js_slice: "set (js_slice xs a b) \<subseteq> set xs"
  by (auto simp: js_slice_def Let_def dest: in_set_takeD in_set_dropD)

lemma js_insert_asc: "js_insert (\<lambda>a b. k a - k b) x xs = insort_key k x xs"
  by (induction xs) auto

lemma js_insert_desc: "js_insert (\<lambda>a b. k b - k a) x xs = insort_key (\<lambda>y. - k y) x xs"
  by (induction xs) auto

lemma js_sort_asc: "js_sort (\<lambda>a b. k a - k b) xs = sort_key k xs"
proof -
  have "js_insert (\<lambda>a b. k a - k b) = insort_key k"
    by (intro ext) (rule js_insert_asc)
  then show ?thesis by (simp add: js_sort_def sort_key_def)
qed

lemma js_sort_desc: "js_sort (\<lambda>a b. k b - k a) xs = sort_key (\<lambda>y. - k y) xs"
proof -
  have "js_insert (\<lambda>a b. k b - k a) = insort_key (\<lambda>y. - k y)"
    by (intro ext) (rule js_insert_desc)
  then show ?thesis by (simp add: js_sort_def sort_key_def)
qed

lemma js_insert_desc_int:
  "js_insert (\<lambda>a b. of_int (k b) - of_int (k a)) x xs = insort_key (\<lambda>y. - k y) x xs"
  by (induction xs) auto

lemma js_sort_desc_int: "js_sort (\<lambda>a b. of_int (k b) - of_int (k a)) xs = sort_key (\<lambda>y. - k y) xs"
proof -
  have "js_insert (\<lambda>a b. of_int (k b) - of_int (k a)) = insort_key (\<lambda>y. - k y)"
    by (intro ext) (rule js_insert_desc_int)
  then show ?thesis by (simp add: js_sort_def sort_key_def)
qed

lemma mset_js_insert: "mset (js_insert cmp x xs) = add_mset x (mset xs)"
  by (induction xs) auto

lemma mset_js_sort: "mset (js_sort cmp xs) = mset xs"
  by (induction xs) (simp_all add: js_sort_def mset_js_insert)

lemma length_js_to_lower: "length (js_to_lower s) = length s"
  by (induction s rule: js_to_lower.induct) auto

lemma js_set_add_distinct: "distinct xs \<Longrightarrow> distinct (js_set_add xs x)"
  by (simp add: js_set_add_def)

lemma set_js_set_add: "set (js_set_add xs x) = insert x (set xs)"
  by (auto simp: js_set_add_def)

lemma js_or_not_nan: "d \<noteq> JNaN \<Longrightarrow> js_or x d \<noteq> JNaN"
  by (cases x) auto

text \<open>
  \<open>toLowerCase\<close> distributes over a concatenation unless the cut separates a lead byte
  \<open>0xC3\<close> from the Latin-1 capital it introduces.
\<close>

lemma js_to_lower_append:
  assumes "xs = [] \<or> ys = [] \<or> last xs \<noteq> CHR 0xC3 \<or> \<not> latin1_upper (hd ys)"
  shows "js_to_lower (xs @ ys) = js_to_lower xs @ js_to_lower ys"
  using assms
proof (induction xs rule: js_to_lower.induct)
  case 1
  then show ?case by simp
next
  case (2 c)
  then show ?case by (cases ys) auto
next
  case (3 c d ds)
  then show ?case by (cases ds) auto
qed

lemma js_to_lower_space_join:
  "js_to_lower (a @ CHR '' '' # b) = js_to_lower a @ CHR '' '' # js_to_lower b"
proof -
  have "js_to_lower (a @ CHR '' '' # b) = js_to_lower a @ js_to_lower (CHR '' '' # b)"
    by (rule js_to_lower_append) (simp add: latin1_upper_def)
  moreover have "js_to_lower (CHR '' '' # b) = CHR '' '' # js_to_lower b"
    by (cases b) (simp_all add: ascii_upper_def)
  ultimately show ?thesis by simp
qed

lemma js_trim_split:
  obtains pre suf where "s = pre @ js_trim s @ suf" "\<forall>c \<in> set pre. js_is_space c"
    "\<forall>c \<in> set suf. js_is_space c"
proof -
  let ?u = "dropWhile js_is_space s"
  let ?suf = "rev (takeWhile js_is_space (rev ?u))"
  have "rev ?u = takeWhile js_is_space (rev ?u) @ dropWhile js_is_space (rev ?u)" by simp
  then have "?u = rev (dropWhile js_is_space (rev ?u)) @ ?suf"
    by (metis rev_append rev_rev_ident)
  then have u: "?u = js_trim s @ ?suf" by (simp only: js_trim_def)
  have "s = takeWhile js_is_space s @ ?u" by simp
  with u have "s = takeWhile js_is_space s @ js_trim s @ ?suf" by simp
  moreover have "\<forall>c \<in> set (takeWhile js_is_space s). js_is_space c"
    by (auto dest: set_takeWhileD)
  moreover have "\<forall>c \<in> set ?suf. js_is_space c"
    by (auto dest: set_takeWhileD)
  ultimately show ?thesis by (rule that)
qed

lemma space_not_lead: "js_is_space c \<Longrightarrow> c \<noteq> CHR 0xC3 \<and> \<not> latin1_upper c"
  by (auto simp: js_is_space_def latin1_upper_def)

text \<open>The lower-cased trimmed text occurs in the lower-cased text followed by a space.\<close>

lemma js_trim_lower_sublist:
  "sublist (js_to_lower (js_trim t)) (js_to_lower (t @ CHR '' '' # r))"
proof -
  obtain pre suf where t: "t = pre @ js_trim t @ suf" and p: "\<forall>c \<in> set pre. js_is_space c"
    and sf: "\<forall>c \<in> set suf. js_is_space c" by (rule js_trim_split)
  define y where "y = suf @ CHR '' '' # r"
  have "y \<noteq> []" and "js_is_space (hd y)"
    using sf by (cases suf; simp add: y_def js_is_space_def)+
  then have a: "js_to_lower (js_trim t @ y) = js_to_lower (js_trim t) @ js_to_lower y"
    by (intro js_to_lower_append) (simp add: space_not_lead)
  have "pre = [] \<or> js_is_space (last pre)" using p by (cases pre rule: rev_cases) auto
  then have b: "js_to_lower (pre @ (js_trim t @ y)) = js_to_lower pre @ js_to_lower (js_trim t @ y)"
    by (intro js_to_lower_append) (auto dest: space_not_lead)
  have "t @ CHR '' '' # r = pre @ (js_trim t @ y)"
    by (subst t) (simp add: y_def)
  then show ?thesis by (simp only: b a) (rule sublist_appendI)
qed

end
