(* ===== verification/Catalog.thy ===== *)
theory Catalog
  imports Js_Runtime
begin

text \<open>
  The catalogue store of scripit.js: the product record, the static seed list
  (\<open>createSampleProducts\<close>), the distinct brand and category sets derived from it
  (\<open>populateFilterSets\<close>) and the filter checkboxes built from them
  (\<open>renderFilterCheckboxes\<close>). \<open>Date.now()\<close> is read once per seed product; the model
  takes the clock as a function from the index of the reading to milliseconds.
\<close>

record product =
  product_id :: int
  title :: js_string
  brand :: js_string
  category :: js_string
  price :: rat
  model :: js_string
  product_image :: js_string
  parcels :: int
  opportunity :: bool
  addedAt :: int

text \<open>UTF-8 spellings of the non-ASCII letters of the seed data.\<close>

abbreviation O_acute :: js_string where "O_acute \<equiv> [CHR 0xC3, CHR 0x93]"
abbreviation i_acute :: js_string where "i_acute \<equiv> [CHR 0xC3, CHR 0xAD]"
abbreviation a_tilde :: js_string where "a_tilde \<equiv> [CHR 0xC3, CHR 0xA3]"

type_synonym clock = "nat \<Rightarrow> int"
  \<comment> \<open>the value of the i-th call of \<open>Date.now()\<close>\<close>

definition create_sample_products :: "clock \<Rightarrow> product list" where
  "create_sample_products now = [
    \<lparr>product_id = 1, title = ''Filtro de Ar Honda Civic 2010'', brand = ''Honda'',
     category = ''Filtro'', price = 120.00, model = ''Civic 2010'',
     product_image = ''img/FiltrodeArHondaCivi2010.jpg'', parcels = 3, opportunity = True,
     addedAt = now 0 - 1000000\<rparr>,
    \<lparr>product_id = 2, title = ''Pastilha de Freio Bosch - Gol 2015'', brand = ''Bosch'',
     category = ''Freios'', price = 250.50, model = ''Gol 2015'',
     product_image = ''img/PastilhaFreioBoschGol2015.jpg'', parcels = 5, opportunity = False,
     addedAt = now 1 - 2000000\<rparr>,
    \<lparr>product_id = 3, title = O_acute @ ''leo Lubrificante Shell 5W30'', brand = ''Shell'',
     category = O_acute @ ''leo'', price = 95.90, model = ''Universal'',
     product_image = ''img/OleoLubrificanteShell5W30.jpg'', parcels = 2, opportunity = True,
     addedAt = now 2 - 3000000\<rparr>,
    \<lparr>product_id = 4, title = ''Bateria Moura 60Ah'', brand = ''Moura'',
     category = ''Bateria'', price = 480.00, model = ''Universal'',
     product_image = ''img/BateriaMoura60Ah.jpg'', parcels = 6, opportunity = False,
     addedAt = now 3 - 4000000\<rparr>,
    \<lparr>product_id = 5, title = ''Filtro de '' @ O_acute @ ''leo Fram'', brand = ''Fram'',
     category = ''Filtro'', price = 45.30, model = ''Universal'',
     product_image = ''img/FiltrodeOleoFram.jpg'', parcels = 1, opportunity = False,
     addedAt = now 4 - 5000000\<rparr>,
    \<lparr>product_id = 6, title = ''Velas NGK Platinum'', brand = ''NGK'',
     category = ''Velas'', price = 78.80, model = ''Universal'',
     product_image = ''img/VelasNGKPlatinum.jpg'', parcels = 3, opportunity = True,
     addedAt = now 5 - 6000000\<rparr>,
    \<lparr>product_id = 7, title = ''Correia Dentada Gates'', brand = ''Gates'',
     category = ''Correia'', price = 150.00, model = ''Universal'',
     product_image = ''img/CorreiaDentadaGates.jpg'', parcels = 4, opportunity = False,
     addedAt = now 6 - 7000000\<rparr>,
    \<lparr>product_id = 8, title = ''Amortecedor Monroe'', brand = ''Monroe'',
     category = ''Suspens'' @ a_tilde @ ''o'', price = 350.00, model = ''Universal'',
     product_image = ''img/AmortecedorMonroe.jpg'', parcels = 5, opportunity = True,
     addedAt = now 7 - 8000000\<rparr>,
    \<lparr>product_id = 9, title = ''Filtro de Combust'' @ i_acute @ ''vel Fram'', brand = ''Fram'',
     category = ''Filtro'', price = 60.00, model = ''Universal'',
     product_image = ''img/FiltrodeCombustivelFram.jpg'', parcels = 3, opportunity = False,
     addedAt = now 8 - 9000000\<rparr>,
    \<lparr>product_id = 10, title = ''Pastilha de Freio Bosch - Corolla 2016'', brand = ''Bosch'',
     category = ''Freios'', price = 260.00, model = ''Corolla 2016'',
     product_image = ''img/PastilhadeFreioBosch-Corolla2016.jpg'', parcels = 5,
     opportunity = True, addedAt = now 9 - 10000000\<rparr>]"

text \<open>
  \<open>populateFilterSets\<close>: both sets are cleared, then every product adds its brand and its
  category, in catalogue order.
\<close>

definition populate_filter_sets :: "product list \<Rightarrow> js_string list \<times> js_string list" where
  "populate_filter_sets ps =
     fold (\<lambda>p (bs, cs). (js_set_add bs (brand p), js_set_add cs (category p))) ps ([], [])"

text \<open>
  \<open>renderFilterCheckboxes\<close>: a checkbox is its value and its checked flag; every call
  builds fresh, unchecked boxes. Brands are listed sorted and cut at 5 unless the list is
  expanded; categories are listed sorted and all of them. The label of the toggle button
  is the third component.
\<close>

type_synonym checkbox = "js_string \<times> bool"

definition brand_limit :: nat where
  "brand_limit = 5"

definition render_filter_checkboxes ::
  "js_string list \<Rightarrow> js_string list \<Rightarrow> bool \<Rightarrow> checkbox list \<times> checkbox list \<times> js_string" where
  "render_filter_checkboxes brands cats expanded =
     (let brandsArr = sort brands;
          limit = (if expanded then length brandsArr else brand_limit)
      in (map (\<lambda>b. (b, False)) (take limit brandsArr),
          map (\<lambda>c. (c, False)) (sort cats),
          if expanded then ''Ver menos'' else ''Ver mais''))"

declare create_sample_products_def [model_defs]

abbreviation seed_catalog :: "product list" where
  "seed_catalog \<equiv> create_sample_products (\<lambda>_. 0)"


subsection \<open>Derived sets and checkboxes\<close>

lemma fold_set_add_split:
  "fold (\<lambda>p (bs, cs). (js_set_add bs (brand p), js_set_add cs (category p))) ps (bs, cs) =
   (fold (\<lambda>p bs. js_set_add bs (brand p)) ps bs, fold (\<lambda>p cs. js_set_add cs (category p)) ps cs)"
  by (induction ps arbitrary: bs cs) auto

lemma set_fold_set_add: "set (fold (\<lambda>p bs. js_set_add bs (f p)) ps bs) = set bs \<union> f ` set ps"
  by (induction ps arbitrary: bs) (auto simp: set_js_set_add)

lemma distinct_fold_set_add: "distinct bs \<Longrightarrow> distinct (fold (\<lambda>p bs. js_set_add bs (f p)) ps bs)"
  by (induction ps arbitrary: bs) (auto simp: js_set_add_distinct)

lemma populate_filter_sets_eq:
  "populate_filter_sets ps =
     (fold (\<lambda>p bs. js_set_add bs (brand p)) ps [], fold (\<lambda>p cs. js_set_add cs (category p)) ps [])"
  by (simp add: populate_filter_sets_def fold_set_add_split)

lemma sort_fold_set_add:
  "sort (fold (\<lambda>p bs. js_set_add bs (f p)) ps []) = sorted_list_of_set (f ` set ps)"
proof -
  let ?xs = "fold (\<lambda>p bs. js_set_add bs (f p)) ps []"
  have "distinct ?xs" by (rule distinct_fold_set_add) simp
  then have "sort ?xs = sort (remdups ?xs)" by (simp add: distinct_remdups_id)
  also have "\<dots> = sorted_list_of_set (set ?xs)" by (simp add: sorted_list_of_set_sort_remdups)
  finally show ?thesis by (simp add: set_fold_set_add)
qed

lemma populate_filter_sets_distinct:
  "distinct (fst (populate_filter_sets ps)) \<and> distinct (snd (populate_filter_sets ps))"
  by (simp add: populate_filter_sets_eq distinct_fold_set_add)

lemma populate_filter_sets_set:
  "set (fst (populate_filter_sets ps)) = brand ` set ps \<and>
   set (snd (populate_filter_sets ps)) = category ` set ps"
  by (simp add: populate_filter_sets_eq set_fold_set_add)

text \<open>
  Claim C16. With the brand list expanded, the brand checkboxes are exactly the distinct
  brands of the catalogue in ascending order, all unchecked, the category checkboxes are
  the sorted categories, and the toggle reads "Ver menos".
\<close>

theorem brand_checkboxes_expanded:
  "render_filter_checkboxes (fst (populate_filter_sets ps)) (snd (populate_filter_sets ps)) True =
     (map (\<lambda>b. (b, False)) (sorted_list_of_set (brand ` set ps)),
      map (\<lambda>c. (c, False)) (sorted_list_of_set (category ` set ps)), ''Ver menos'')"
  by (simp add: render_filter_checkboxes_def populate_filter_sets_eq sort_fold_set_add)

text \<open>
  Claim C17. With the brand list collapsed, only the first five distinct brands in
  ascending order get a checkbox.
\<close>

theorem brand_checkboxes_collapsed:
  "fst (render_filter_checkboxes (fst (populate_filter_sets ps)) cats False) =
     map (\<lambda>b. (b, False)) (take 5 (sorted_list_of_set (brand ` set ps)))"
  by (simp add: render_filter_checkboxes_def populate_filter_sets_eq sort_fold_set_add
      brand_limit_def)

lemma brand_checkboxes_expanded_witness:
  "render_filter_checkboxes (fst (populate_filter_sets seed_catalog))
     (snd (populate_filter_sets seed_catalog)) True =
   (map (\<lambda>b. (b, False)) (sorted_list_of_set (brand ` set seed_catalog)),
    map (\<lambda>c. (c, False)) (sorted_list_of_set (category ` set seed_catalog)), ''Ver menos'')"
  by (rule brand_checkboxes_expanded)

lemma seed_brand_checkboxes_witness:
  "map fst (fst (render_filter_checkboxes (fst (populate_filter_sets seed_catalog)) [] False)) =
   [''Bosch'', ''Fram'', ''Gates'', ''Honda'', ''Monroe'']"
proof -
  have "brand ` set seed_catalog =
    {''Honda'', ''Bosch'', ''Shell'', ''Moura'', ''Fram'', ''NGK'', ''Gates'', ''Monroe''}"
    by (auto simp: create_sample_products_def)
  then show ?thesis
    using brand_checkboxes_collapsed [of seed_catalog "[]"] by simp
qed

end
