(* ===== verification/Query.thy ===== *)
theory Query
  imports Catalog
begin

text \<open>
  The query pipeline of scripit.js: the form controls that \<open>applyFiltersAndRender\<close> reads,
  the filter state it builds from them, the five-clause product filter, the sort dispatch
  on the value of the sort select, the whole recomputation of \<open>filtered\<close>, and
  \<open>renderSuggestions\<close>. The \<open>relevance\<close> sort calls \<open>sort\<close> with a random comparator:
  its result is whatever permutation the engine produces, given to the model as a
  \<open>shuffle\<close> function.
\<close>

subsection \<open>Form controls and filter state\<close>

record inputs =
  search_value :: js_string
  brand_boxes :: "checkbox list"
  cat_boxes :: "checkbox list"
  opportunity_boxes :: "bool list"
  price_min_value :: js_string
  price_max_value :: js_string
  sort_value :: js_string
  brands_expanded :: bool

record filter_state =
  query :: js_string
  selected_brands :: "js_string list"
  selected_cats :: "js_string list"
  only_opportunity :: bool
  min_p :: jsnum
  max_p :: jsnum

definition checked_values :: "checkbox list \<Rightarrow> js_string list" where
  "checked_values boxes = map fst (filter snd boxes)"

definition read_filters :: "inputs \<Rightarrow> filter_state" where
  "read_filters i =
     \<lparr>query = js_to_lower (js_trim (search_value i)),
      selected_brands = checked_values (brand_boxes i),
      selected_cats = checked_values (cat_boxes i),
      only_opportunity = list_ex id (opportunity_boxes i),
      min_p = js_or (parse_float (price_min_value i)) (JNum 0),
      max_p = js_or (parse_float (price_max_value i)) JInf\<rparr>"

subsection \<open>The filter\<close>

definition haystack :: "product \<Rightarrow> js_string" where
  "haystack p = js_to_lower (title p @ '' '' @ brand p @ '' '' @ model p @ '' '' @ category p)"

definition passes :: "filter_state \<Rightarrow> product \<Rightarrow> bool" where
  "passes fs p =
     (if only_opportunity fs \<and> \<not> opportunity p then False
      else if selected_brands fs \<noteq> [] \<and> brand p \<notin> set (selected_brands fs) then False
      else if selected_cats fs \<noteq> [] \<and> category p \<notin> set (selected_cats fs) then False
      else if js_less (price p) (min_p fs) \<or> js_greater (price p) (max_p fs) then False
      else if query fs \<noteq> [] then js_includes (haystack p) (query fs)
      else True)"

definition filter_products :: "filter_state \<Rightarrow> product list \<Rightarrow> product list" where
  "filter_products fs ps = filter (passes fs) ps"

subsection \<open>Sorting\<close>

datatype sort_mode = PriceAsc | PriceDesc | Recent | Relevance | DefaultOrder

definition sort_mode_of :: "js_string \<Rightarrow> sort_mode" where
  "sort_mode_of s =
     (if s = ''price-asc'' then PriceAsc
      else if s = ''price-desc'' then PriceDesc
      else if s = ''recent'' then Recent
      else if s = ''relevance'' then Relevance
      else DefaultOrder)"

type_synonym shuffle = "product list \<Rightarrow> product list"

fun apply_sort :: "shuffle \<Rightarrow> sort_mode \<Rightarrow> product list \<Rightarrow> product list" where
  "apply_sort sh PriceAsc xs = js_sort (\<lambda>a b. price a - price b) xs"
| "apply_sort sh PriceDesc xs = js_sort (\<lambda>a b. price b - price a) xs"
| "apply_sort sh Recent xs = js_sort (\<lambda>a b. of_int (addedAt b) - of_int (addedAt a)) xs"
| "apply_sort sh Relevance xs = sh xs"
| "apply_sort sh DefaultOrder xs = xs"

text \<open>A shuffle the engine may produce: some permutation of its argument.\<close>

definition perm_oracle :: "shuffle \<Rightarrow> bool" where
  "perm_oracle sh \<longleftrightarrow> (\<forall>xs. mset (sh xs) = mset xs)"

subsection \<open>Recomputation of the result\<close>

text \<open>
  The value \<open>applyFiltersAndRender\<close> assigns to \<open>filtered\<close>: read the controls, filter
  the catalogue, sort by the selected mode. (Resetting the page and rendering are the
  page component's part of the handler.)
\<close>

definition apply_filters :: "shuffle \<Rightarrow> inputs \<Rightarrow> product list \<Rightarrow> product list" where
  "apply_filters sh i ps =
     apply_sort sh (sort_mode_of (sort_value i)) (filter_products (read_filters i) ps)"

subsection \<open>Suggestions\<close>

definition suggestion_limit :: nat where
  "suggestion_limit = 6"

text \<open>
  \<open>renderSuggestions q\<close>: the first result component is whether the list is hidden, the
  second the titles shown (the list's items).
\<close>

definition render_suggestions :: "product list \<Rightarrow> js_string \<Rightarrow> bool \<times> js_string list" where
  "render_suggestions ps q =
     (if q = [] then (True, [])
      else
        let matches = take suggestion_limit (filter (\<lambda>p. js_includes (haystack p) q) ps)
        in if matches = [] then (True, []) else (False, map title matches))"

subsection \<open>The specification of the filter\<close>

text \<open>The five clauses of the spec, as one conjunction over the same filter state.\<close>

definition spec_passes :: "filter_state \<Rightarrow> product \<Rightarrow> bool" where
  "spec_passes fs p \<longleftrightarrow>
     (only_opportunity fs \<longrightarrow> opportunity p) \<and>
     (selected_brands fs \<noteq> [] \<longrightarrow> brand p \<in> set (selected_brands fs)) \<and>
     (selected_cats fs \<noteq> [] \<longrightarrow> category p \<in> set (selected_cats fs)) \<and>
     \<not> js_less (price p) (min_p fs) \<and> \<not> js_greater (price p) (max_p fs) \<and>
     (query fs \<noteq> [] \<longrightarrow> sublist (query fs) (haystack p))"


declare read_filters_def [model_defs] checked_values_def [model_defs] haystack_def [model_defs]
  sort_mode_of_def [model_defs] spec_passes_def [model_defs]

text \<open>The controls as the page first shows them: nothing typed, nothing checked.\<close>

abbreviation blank_inputs :: inputs where
  "blank_inputs \<equiv> \<lparr>search_value = [], brand_boxes = [], cat_boxes = [], opportunity_boxes = [],
     price_min_value = [], price_max_value = [], sort_value = [], brands_expanded = False\<rparr>"

subsection \<open>The filter meets its specification\<close>

lemma passes_eq_spec: "passes fs p = spec_passes fs p"
  by (auto simp: passes_def spec_passes_def js_includes_sublist)

lemma filter_products_eq_spec: "filter_products fs ps = filter (spec_passes fs) ps"
  by (simp add: filter_products_def passes_eq_spec [abs_def])

text \<open>
  Claim C1. The filter of \<open>applyFiltersAndRender\<close>, a chain of early returns, keeps
  exactly the products that satisfy all five clauses of the spec, in catalogue order: a
  product is in the result iff it is in the catalogue and passes every clause.
\<close>

theorem filter_matches_spec:
  "filter_products fs ps = filter (spec_passes fs) ps \<and>
   (p \<in> set (filter_products fs ps) \<longleftrightarrow> p \<in> set ps \<and> spec_passes fs p)"
  by (simp add: filter_products_eq_spec)

lemma filter_matches_spec_witness:
  "map product_id (filter_products (read_filters (blank_inputs\<lparr>opportunity_boxes := [True]\<rparr>))
     seed_catalog) = [1, 3, 6, 8, 10]"
  using filter_matches_spec [of "read_filters (blank_inputs\<lparr>opportunity_boxes := [True]\<rparr>)"
      seed_catalog]
  by (simp add: model_defs)

text \<open>
  The search text joins the fields with spaces before lower-casing; a space never
  completes a two-byte capital, so the case mapping acts field by field.
\<close>

lemma haystack_split:
  "haystack p = js_to_lower (title p) @ '' '' @ js_to_lower (brand p) @ '' '' @
                js_to_lower (model p) @ '' '' @ js_to_lower (category p)"
  by (simp add: haystack_def js_to_lower_space_join)

lemma haystack_fields:
  "sublist (js_to_lower (title p)) (haystack p) \<and> sublist (js_to_lower (brand p)) (haystack p) \<and>
   sublist (js_to_lower (model p)) (haystack p) \<and> sublist (js_to_lower (category p)) (haystack p)"
proof -
  let ?T = "js_to_lower (title p)" and ?B = "js_to_lower (brand p)"
  let ?M = "js_to_lower (model p)" and ?C = "js_to_lower (category p)"
  have "sublist ?T ([] @ ?T @ '' '' @ ?B @ '' '' @ ?M @ '' '' @ ?C)"
    and "sublist ?B ((?T @ '' '') @ ?B @ '' '' @ ?M @ '' '' @ ?C)"
    and "sublist ?M ((?T @ '' '' @ ?B @ '' '') @ ?M @ '' '' @ ?C)"
    and "sublist ?C ((?T @ '' '' @ ?B @ '' '' @ ?M @ '' '') @ ?C @ [])"
    by (rule sublist_appendI)+
  then show ?thesis unfolding haystack_split by simp
qed

text \<open>
  Claim C3. The text the search matches is the lower-cased title, brand, model and
  category, in that order and separated by single spaces; so a query found in the
  lower-cased text of any one of the four fields is found by the search.
\<close>

theorem search_fields:
  "haystack p = js_to_lower (title p) @ '' '' @ js_to_lower (brand p) @ '' '' @
                js_to_lower (model p) @ '' '' @ js_to_lower (category p) \<and>
   (sublist q (js_to_lower (title p)) \<or> sublist q (js_to_lower (brand p)) \<or>
    sublist q (js_to_lower (model p)) \<or> sublist q (js_to_lower (category p)) \<longrightarrow>
    js_includes (haystack p) q)"
  using haystack_fields [of p] haystack_split [of p]
  by (auto simp: js_includes_sublist intro: sublist_order.order.trans)

lemma search_fields_witness:
  "js_includes (haystack (seed_catalog ! 1)) ''bosch''"
proof -
  have "js_to_lower (brand (seed_catalog ! 1)) = ''bosch''"
    by (simp add: create_sample_products_def model_defs)
  then have "sublist ''bosch'' (js_to_lower (brand (seed_catalog ! 1)))" by simp
  with search_fields [of "seed_catalog ! 1" "''bosch''"] show ?thesis by blast
qed

subsection \<open>Sorting\<close>

lemma apply_sort_price_asc: "apply_sort sh PriceAsc xs = sort_key price xs"
  by (simp add: js_sort_asc)

lemma apply_sort_price_desc: "apply_sort sh PriceDesc xs = sort_key (\<lambda>p. - price p) xs"
  by (simp add: js_sort_desc)

lemma apply_sort_recent: "apply_sort sh Recent xs = sort_key (\<lambda>p. - addedAt p) xs"
  by (simp add: js_sort_desc_int)

lemmas apply_sort_sort_key = apply_sort_price_asc apply_sort_price_desc apply_sort_recent
  apply_sort.simps(4,5)

declare apply_sort.simps [simp del]
declare apply_sort_sort_key [simp]

text \<open>
  Claim C5. The \<open>price-asc\<close> sort orders by price, keeps every product, and is stable:
  products of equal price keep their relative order.
\<close>

theorem price_asc_sorted_stable:
  "sorted (map price (apply_sort sh PriceAsc xs)) \<and>
   mset (apply_sort sh PriceAsc xs) = mset xs \<and>
   filter (\<lambda>p. price p = k) (apply_sort sh PriceAsc xs) = filter (\<lambda>p. price p = k) xs"
  by (simp add: sort_key_stable)

lemma price_asc_sorted_stable_witness:
  "sorted (map price (apply_sort id PriceAsc seed_catalog)) \<and>
   mset (apply_sort id PriceAsc seed_catalog) = mset seed_catalog \<and>
   filter (\<lambda>p. price p = 60) (apply_sort id PriceAsc seed_catalog) =
     filter (\<lambda>p. price p = 60) seed_catalog"
  by (rule price_asc_sorted_stable)

text \<open>
  Claim C6. In the \<open>recent\<close> order every product is at least as recent as the next one,
  and no product is lost or duplicated.
\<close>

theorem recent_sorted:
  "sorted_wrt (\<lambda>a b. addedAt b \<le> addedAt a) (apply_sort sh Recent xs) \<and>
   mset (apply_sort sh Recent xs) = mset xs"
proof -
  have "sorted (map (\<lambda>p. - addedAt p) (sort_key (\<lambda>p. - addedAt p) xs))"
    by (rule sorted_sort_key)
  then have "sorted_wrt (\<lambda>a b. addedAt b \<le> addedAt a) (sort_key (\<lambda>p. - addedAt p) xs)"
    by (simp add: sorted_map)
  then show ?thesis by simp
qed

lemma recent_sorted_witness:
  "sorted_wrt (\<lambda>a b. addedAt b \<le> addedAt a) (apply_sort id Recent seed_catalog) \<and>
   mset (apply_sort id Recent seed_catalog) = mset seed_catalog"
  by (rule recent_sorted)

lemma filter_key_distinct:
  "distinct (map f xs) \<Longrightarrow> k \<in> set xs \<Longrightarrow> filter (\<lambda>x. f k = f x) xs = [k]"
proof (induction xs)
  case Nil
  then show ?case by simp
next
  case (Cons a xs)
  then show ?case by (auto simp: filter_empty_conv) (metis imageI)
qed

text \<open>
  Claim C7. When no two products share a price, \<open>price-desc\<close> is \<open>price-asc\<close> reversed.
\<close>

theorem price_desc_is_rev_asc:
  assumes "distinct (map price xs)"
  shows "apply_sort sh PriceDesc xs = rev (apply_sort sh PriceAsc xs)"
proof -
  let ?ys = "rev (sort_key price xs)"
  have m: "mset ?ys = mset xs" by simp
  have d: "distinct (map price ?ys)"
    using assms m by (metis mset_map mset_eq_imp_distinct_iff)
  have f: "filter (\<lambda>x. - price k = - price x) ?ys = filter (\<lambda>x. - price k = - price x) xs"
    if "k \<in> set ?ys" for k
    using that filter_key_distinct [OF d, of k] filter_key_distinct [OF assms, of k] by simp
  have s: "sorted (map (\<lambda>p. - price p) ?ys)"
  proof -
    have "sorted (map price (sort_key price xs))" by (rule sorted_sort_key)
    then show ?thesis by (simp add: sorted_map sorted_wrt_map sorted_wrt_rev rev_map [symmetric])
  qed
  have "sort_key (\<lambda>p. - price p) xs = ?ys"
    by (rule properties_for_sort_key [OF m f s])
  then show ?thesis by simp
qed

lemma price_desc_is_rev_asc_witness:
  "distinct (map price seed_catalog) \<and>
   apply_sort id PriceDesc seed_catalog = rev (apply_sort id PriceAsc seed_catalog)"
proof -
  have d: "distinct (map price seed_catalog)" by (simp add: model_defs)
  show ?thesis using d price_desc_is_rev_asc [OF d] by simp
qed


subsection \<open>The whole recomputation\<close>

text \<open>
  Claim C2. The result \<open>applyFiltersAndRender\<close> computes is the specified filter of the
  catalogue followed by the specified order: the stable sort by ascending price, by
  descending price or by descending \<open>addedAt\<close>, the engine's shuffle for \<open>relevance\<close>,
  and catalogue order for any other value of the sort select.
\<close>

theorem pipeline_spec:
  "apply_filters sh i ps =
     (let F = filter (spec_passes (read_filters i)) ps in
      case sort_mode_of (sort_value i) of
        PriceAsc \<Rightarrow> sort_key price F
      | PriceDesc \<Rightarrow> sort_key (\<lambda>p. - price p) F
      | Recent \<Rightarrow> sort_key (\<lambda>p. - addedAt p) F
      | Relevance \<Rightarrow> sh F
      | DefaultOrder \<Rightarrow> F)"
  by (simp add: apply_filters_def filter_products_eq_spec Let_def split: sort_mode.split)

lemma pipeline_spec_witness:
  "map product_id (apply_filters id
     (blank_inputs\<lparr>search_value := ''Filtro'', sort_value := ''price-asc''\<rparr>) seed_catalog) =
   [5, 9, 1]"
  using pipeline_spec [of id "blank_inputs\<lparr>search_value := ''Filtro'', sort_value := ''price-asc''\<rparr>"
      seed_catalog]
  by (simp add: model_defs js_includes_sublist [symmetric])

lemma mset_apply_filters:
  "perm_oracle sh \<Longrightarrow> mset (apply_filters sh i ps) = mset (filter_products (read_filters i) ps)"
  by (cases "sort_mode_of (sort_value i)") (simp_all add: apply_filters_def perm_oracle_def)

lemma perm_oracle_rev: "perm_oracle rev"
  by (simp add: perm_oracle_def)

text \<open>
  Claim C18. Whatever permutation the engine's random sort produces, and for every sort
  mode, a product is shown in the result iff it is in the catalogue and passes the five
  clauses, and the result is as long as the filtered catalogue.
\<close>

theorem pipeline_members:
  assumes "perm_oracle sh"
  shows "(p \<in> set (apply_filters sh i ps) \<longleftrightarrow> p \<in> set ps \<and> spec_passes (read_filters i) p) \<and>
         length (apply_filters sh i ps) = length (filter (spec_passes (read_filters i)) ps)"
proof -
  have m: "mset (apply_filters sh i ps) = mset (filter (spec_passes (read_filters i)) ps)"
    using mset_apply_filters [OF assms] by (simp add: filter_products_eq_spec)
  then have "set (apply_filters sh i ps) = set (filter (spec_passes (read_filters i)) ps)"
    by (metis set_mset_mset)
  moreover have "length (apply_filters sh i ps) = length (filter (spec_passes (read_filters i)) ps)"
    using m by (metis size_mset)
  ultimately show ?thesis by simp
qed

lemma pipeline_members_witness:
  "length (apply_filters rev (blank_inputs\<lparr>sort_value := ''relevance'', opportunity_boxes := [True]\<rparr>)
     seed_catalog) = 5"
  using pipeline_members [OF perm_oracle_rev, of _ "blank_inputs\<lparr>sort_value := ''relevance'',
      opportunity_boxes := [True]\<rparr>" seed_catalog]
  by (simp add: model_defs)

subsection \<open>Suggestions\<close>

text \<open>
  Claim C14. The suggestion list is hidden and empty for an empty query; otherwise it shows
  the titles of the first six catalogue products whose search text contains the query, in
  catalogue order, and it is hidden exactly when there are none.
\<close>

theorem suggestions_spec:
  "render_suggestions ps q =
     (let items = (if q = [] then []
                   else map title (take 6 (filter (\<lambda>p. sublist q (haystack p)) ps)))
      in (items = [], items))"
  by (simp add: render_suggestions_def suggestion_limit_def js_includes_sublist [abs_def] Let_def)

lemma suggestions_spec_witness:
  "render_suggestions seed_catalog ''bosch'' =
     (False, [''Pastilha de Freio Bosch - Gol 2015'', ''Pastilha de Freio Bosch - Corolla 2016''])"
  using suggestions_spec [of seed_catalog "''bosch''"]
  by (simp add: model_defs js_includes_sublist [symmetric])

subsection \<open>Price inputs\<close>

text \<open>
  Claim C19. When neither price input holds a number, the price clause keeps exactly the
  products of non-negative price: the bounds default to 0 and to infinity.
\<close>

theorem price_defaults:
  assumes "parse_float (price_min_value i) = JNaN" "parse_float (price_max_value i) = JNaN"
  shows "(\<not> js_less x (min_p (read_filters i)) \<and> \<not> js_greater x (max_p (read_filters i)))
         \<longleftrightarrow> 0 \<le> x"
  using assms by (auto simp: read_filters_def)

lemma price_defaults_witness:
  "\<not> js_less 45.30 (min_p (read_filters (blank_inputs\<lparr>price_min_value := ''abc''\<rparr>))) \<and>
   \<not> js_greater 45.30 (max_p (read_filters (blank_inputs\<lparr>price_min_value := ''abc''\<rparr>)))"
proof -
  have h1: "parse_float (price_min_value (blank_inputs\<lparr>price_min_value := ''abc''\<rparr>)) = JNaN"
    and h2: "parse_float (price_max_value (blank_inputs\<lparr>price_min_value := ''abc''\<rparr>)) = JNaN"
    by (simp_all add: parse_float_simps)
  show ?thesis using price_defaults [OF h1 h2, of "45.30"] by simp
qed

text \<open>
  Claim C20. A maximum price typed as 0 is falsy for \<open>||\<close> and becomes infinity: the
  filter then sets no upper bound at all, where the spec expects none to pass.
\<close>

theorem max_zero_unbounded:
  "parse_float (price_max_value i) = JNum 0 \<Longrightarrow> max_p (read_filters i) = JInf"
  by (simp add: read_filters_def)

lemma max_zero_unbounded_witness:
  "max_p (read_filters (blank_inputs\<lparr>price_max_value := ''0''\<rparr>)) = JInf"
  by (rule max_zero_unbounded) (simp add: parse_float_simps)

end
