(* ===== verification/Js_Number.thy ===== *)
theory Js_Number
  imports Js_Runtime
begin

text \<open>
  The number-to-string side of the runtime that the product cards use:
  \<open>Number.prototype.toString\<close> on integers (the \<open>${p.parcels}\<close> of a template literal),
  \<open>Number.prototype.toFixed(2)\<close>, the division \<open>p.price / p.parcels\<close> with its
  infinities and NaN, and \<open>String.prototype.replace\<close> with a one-character string pattern,
  which replaces the first occurrence only. \<open>toFixed\<close> picks the integer \<open>n\<close> closest to
  \<open>x * 100\<close>, the larger one on a tie; for \<open>|x| \<ge> 10^21\<close> it falls back to
  \<open>ToString\<close>, which is not modelled (the result is \<open>None\<close>). The lemmas read the
  printed strings back with the \<open>parseFloat\<close> of \<open>Js_Runtime\<close>.
\<close>

definition digit_of_nat :: "nat \<Rightarrow> char" where
  "digit_of_nat d = ''0123456789'' ! d"

fun nat_digits :: "nat \<Rightarrow> js_string" where
  "nat_digits n =
     (if n < 10 then [digit_of_nat n] else nat_digits (n div 10) @ [digit_of_nat (n mod 10)])"

definition int_to_string :: "int \<Rightarrow> js_string" where
  "int_to_string i = (if i < 0 then ''-'' @ nat_digits (nat (- i)) else nat_digits (nat i))"

definition to_fixed2 :: "rat \<Rightarrow> js_string option" where
  "to_fixed2 x =
     (let m = \<bar>x\<bar>
      in if 10 ^ 21 \<le> m then None
         else
           let n = nat \<lfloor>m * 100 + 1 / 2\<rfloor>
           in Some ((if x < 0 then ''-'' else []) @ nat_digits (n div 100) @ ''.'' @
                    [digit_of_nat (n mod 100 div 10), digit_of_nat (n mod 10)]))"

fun js_to_fixed2 :: "jsnum \<Rightarrow> js_string option" where
  "js_to_fixed2 (JNum r) = to_fixed2 r"
| "js_to_fixed2 JInf = Some ''Infinity''"
| "js_to_fixed2 JNegInf = Some ''-Infinity''"
| "js_to_fixed2 JNaN = Some ''NaN''"

fun js_replace_first :: "char \<Rightarrow> char \<Rightarrow> js_string \<Rightarrow> js_string" where
  "js_replace_first a b [] = []"
| "js_replace_first a b (c # cs) = (if c = a then b # cs else c # js_replace_first a b cs)"

definition js_divide :: "rat \<Rightarrow> int \<Rightarrow> jsnum" where
  "js_divide x d =
     (if d = 0 then (if x = 0 then JNaN else if 0 < x then JInf else JNegInf)
      else JNum (x / of_int d))"

declare nat_digits.simps [simp del]

lemmas to_fixed2_simps = to_fixed2_def nat_digits.simps digit_of_nat_def int_to_string_def
  js_divide_def

declare to_fixed2_simps [model_defs]

subsection \<open>Decimal digits\<close>

lemma floor_numeral_divide [simp]:
  "\<lfloor>(numeral a / numeral b :: rat)\<rfloor> = numeral a div numeral b"
  using floor_divide_of_int_eq [of "numeral a" "numeral b", where 'a = rat] by simp

lemma digit_char: "k < 10 \<Longrightarrow> is_digit (digit_of_nat k) \<and> of_char (digit_of_nat k) = 48 + k"
  by (auto simp: digit_of_nat_def is_digit_def less_eq_char_def less_Suc_eq numeral_eq_Suc)

lemma digits_value_append: "digits_value (xs @ ys) acc = digits_value ys (digits_value xs acc)"
  by (induction xs arbitrary: acc) auto

text \<open>Printing a natural number and reading its digits back gives the number.\<close>

lemma nat_digits_ok: "list_all is_digit (nat_digits n) \<and> digits_value (nat_digits n) 0 = n"
proof (induction n rule: nat_digits.induct)
  case (1 n)
  show ?case
  proof (cases "n < 10")
    case True
    then show ?thesis using digit_char [of n] by (simp add: nat_digits.simps)
  next
    case False
    then have IH: "list_all is_digit (nat_digits (n div 10)) \<and>
                   digits_value (nat_digits (n div 10)) 0 = n div 10"
      using "1.IH" by simp
    have d: "is_digit (digit_of_nat (n mod 10)) \<and> of_char (digit_of_nat (n mod 10)) = 48 + n mod 10"
      by (rule digit_char) simp
    show ?thesis using False IH d
      by (simp add: nat_digits.simps [of n] digits_value_append)
  qed
qed

lemma nat_digits_hd: obtains d ds where "nat_digits a = d # ds" "is_digit d"
proof -
  have "nat_digits a \<noteq> []" by (subst nat_digits.simps) simp
  then obtain d ds where e: "nat_digits a = d # ds" by (cases "nat_digits a") auto
  with nat_digits_ok [of a] have "is_digit d" by simp
  with e show ?thesis using that by blast
qed

lemma fixed_digits_value:
  "digits_value (nat_digits (n div 100) @ [digit_of_nat (n mod 100 div 10), digit_of_nat (n mod 10)]) 0 = n"
proof -
  have a: "of_char (digit_of_nat (n mod 100 div 10)) = 48 + n mod 100 div 10"
    using digit_char [of "n mod 100 div 10"] by simp
  have b: "of_char (digit_of_nat (n mod 10)) = 48 + n mod 10"
    using digit_char [of "n mod 10"] by simp
  have v: "digits_value (nat_digits (n div 100)) 0 = n div 100" using nat_digits_ok by blast
  have e2: "n mod 100 div 10 * 10 + n mod 100 mod 10 = n mod 100" by simp
  have e3: "n mod 100 mod 10 = n mod 10" by (simp add: mod_mod_cancel)
  have "(n div 100 * 10 + n mod 100 div 10) * 10 + n mod 10 =
        n div 100 * 100 + (n mod 100 div 10 * 10 + n mod 100 mod 10)"
    by (simp add: e3 add_mult_distrib)
  also have "\<dots> = n" by (simp only: e2) simp
  finally show ?thesis by (simp add: digits_value_append a b v)
qed

subsection \<open>Reading printed numbers back\<close>

lemma parse_float_digit_start:
  assumes "is_digit d"
  shows "parse_float (d # ds) = parse_unsigned (d # ds)"
    and "parse_float (CHR ''-'' # d # ds) = js_negate (parse_unsigned (d # ds))"
  using assms by (auto simp: parse_float_def js_is_space_def is_digit_def)

lemma not_prefix_infinity: "is_digit d \<Longrightarrow> \<not> prefix ''Infinity'' (d # ds)"
  by (auto simp: is_digit_def)

lemma parse_unsigned_fixed:
  assumes c: "is_digit c1" "is_digit c2"
  shows "parse_unsigned (nat_digits a @ [CHR ''.'', c1, c2]) =
           JNum (of_nat (digits_value (nat_digits a @ [c1, c2]) 0) / 100)"
proof -
  let ?s = "nat_digits a @ [CHR ''.'', c1, c2]"
  obtain d ds where e: "nat_digits a = d # ds" "is_digit d" by (rule nat_digits_hd)
  have dig: "\<forall>x \<in> set (nat_digits a). is_digit x"
    using nat_digits_ok [of a] by (simp add: list_all_iff)
  have nd: "\<not> is_digit CHR ''.''" by (simp add: is_digit_def)
  have tw: "takeWhile is_digit ?s = nat_digits a"
    using dig nd by (simp add: takeWhile_append2)
  have "\<not> prefix ''Infinity'' ?s"
    using not_prefix_infinity [OF e(2), of "ds @ [CHR ''.'', c1, c2]"] by (simp add: e)
  then show ?thesis
    using c by (simp add: parse_unsigned_def tw Let_def parse_exponent_def scale10_def)
qed

text \<open>
  A digit run followed by anything that cannot continue a number is read as the digit run:
  \<open>parseFloat\<close> takes the longest numeric prefix and ignores the rest.
\<close>

lemma parse_float_digits_prefix:
  assumes "ds \<noteq> []" "list_all is_digit ds"
    "r = [] \<or> \<not> is_digit (hd r) \<and> hd r \<notin> {CHR ''.'', CHR ''e'', CHR ''E''}"
  shows "parse_float (ds @ r) = JNum (of_nat (digits_value ds 0))"
proof -
  obtain d ds' where d: "ds = d # ds'" using assms(1) by (cases ds) auto
  have dd: "is_digit d" using assms(2) d by simp
  have tw: "takeWhile is_digit (ds @ r) = ds"
    using assms(2,3) by (cases r) (auto simp: list_all_iff takeWhile_append2)
  have np: "\<not> prefix ''Infinity'' (ds @ r)"
    using not_prefix_infinity [OF dd, of "ds' @ r"] by (simp add: d)
  have "parse_unsigned (ds @ r) = JNum (of_nat (digits_value ds 0))"
  proof (cases r)
    case Nil
    have tw': "takeWhile is_digit ds = ds" using tw unfolding Nil by simp
    show ?thesis using np assms(1) unfolding parse_unsigned_def Nil append_Nil2 tw' Let_def
      by (simp add: parse_exponent_def scale10_def)
  next
    case (Cons c r')
    then have c: "c \<noteq> CHR ''.''" "c \<noteq> CHR ''e''" "c \<noteq> CHR ''E''" using assms(3) by auto
    have tw': "takeWhile is_digit (ds @ c # r') = ds" using tw unfolding Cons .
    show ?thesis using np assms(1) c unfolding parse_unsigned_def Cons tw' Let_def
      by (simp add: parse_exponent_def scale10_def)
  qed
  then show ?thesis using parse_float_digit_start(1) [OF dd, of "ds' @ r"] by (simp add: d)
qed

lemma round_cents_bound:
  "\<bar>of_int \<lfloor>x * 100 + 1 / 2\<rfloor> / 100 - x\<bar> \<le> (1 / 200 :: rat)"
proof -
  define k where "k = \<lfloor>x * 100 + 1 / 2\<rfloor>"
  have a: "of_int k \<le> x * 100 + 1 / 2" and b: "x * 100 + 1 / 2 < of_int k + 1"
    using floor_correct [of "x * 100 + 1 / 2"] by (simp_all add: k_def)
  have c: "\<bar>of_int k - x * 100\<bar> \<le> 1 / 2"
    using a b by (simp only: abs_le_iff) (intro conjI; linarith)
  have h: "of_int k / 100 - x = (of_int k - x * 100) / 100" by (simp add: field_simps)
  have "\<bar>of_int k / 100 - x\<bar> = \<bar>of_int k - x * 100\<bar> / 100"
    by (simp only: h abs_divide abs_numeral)
  with c show ?thesis by (simp add: k_def)
qed

text \<open>
  \<open>toFixed(2)\<close> read back: below \<open>10^21\<close> in magnitude it prints a string that
  \<open>parseFloat\<close> reads as the magnitude rounded half-up to cents, with the sign of the
  value, so within half a cent of it.
\<close>

lemma to_fixed2_parse:
  assumes "\<bar>x\<bar> < 10 ^ 21"
  shows "\<exists>s. to_fixed2 x = Some s \<and>
             parse_float s = JNum ((if x < 0 then -1 else 1) * of_int \<lfloor>\<bar>x\<bar> * 100 + 1 / 2\<rfloor> / 100) \<and>
             \<bar>(if x < 0 then -1 else 1) * of_int \<lfloor>\<bar>x\<bar> * 100 + 1 / 2\<rfloor> / 100 - x\<bar> \<le> 1 / 200"
proof -
  define n where "n = nat \<lfloor>\<bar>x\<bar> * 100 + 1 / 2\<rfloor>"
  define c1 where "c1 = digit_of_nat (n mod 100 div 10)"
  define c2 where "c2 = digit_of_nat (n mod 10)"
  define s where "s = nat_digits (n div 100) @ [CHR ''.'', c1, c2]"
  have nn: "0 \<le> \<lfloor>\<bar>x\<bar> * 100 + 1 / 2\<rfloor>" by simp
  then have r: "(of_nat n :: rat) = of_int \<lfloor>\<bar>x\<bar> * 100 + 1 / 2\<rfloor>" by (simp add: n_def)
  have t: "to_fixed2 x = Some ((if x < 0 then ''-'' else []) @ s)"
    using assms by (simp add: to_fixed2_def Let_def n_def c1_def c2_def s_def)
  have d1: "is_digit c1" unfolding c1_def by (rule conjunct1 [OF digit_char]) simp
  have d2: "is_digit c2" unfolding c2_def by (rule conjunct1 [OF digit_char]) simp
  have u: "parse_unsigned s = JNum (of_nat n / 100)"
    using parse_unsigned_fixed [OF d1 d2, of "n div 100"] fixed_digits_value [of n]
    by (simp add: s_def c1_def c2_def)
  obtain d ds where e: "nat_digits (n div 100) = d # ds" "is_digit d" by (rule nat_digits_hd)
  have ps: "parse_float ((if x < 0 then ''-'' else []) @ s) =
            JNum ((if x < 0 then -1 else 1) * of_nat n / 100)"
    using parse_float_digit_start [OF e(2)] u by (simp add: s_def e)
  have b: "\<bar>of_int \<lfloor>\<bar>x\<bar> * 100 + 1 / 2\<rfloor> / 100 - \<bar>x\<bar>\<bar> \<le> (1 / 200 :: rat)"
    by (rule round_cents_bound)
  have "\<bar>(if x < 0 then -1 else 1) * of_int \<lfloor>\<bar>x\<bar> * 100 + 1 / 2\<rfloor> / 100 - x\<bar> \<le> (1 / 200 :: rat)"
    using b by (cases "x < 0") (simp_all add: abs_minus_commute add.commute)
  with t ps r show ?thesis by auto
qed

end
