(* ===== verification/Card.thy ===== *)
theory Card
  imports Catalog Js_Number
begin

text \<open>
  The product card that \<open>renderProducts\<close> fills in for every product of the page slice:
  the image and its alternative text, the title, the price as \<open>toFixed(2)\<close> with the
  decimal point replaced by a comma, the installment line built by a template literal from
  \<open>p.parcels\<close> and \<open>(p.price / p.parcels).toFixed(2)\<close>, and the buy button, whose listener
  captures the product (\<open>buy_product\<close>). A text is \<open>None\<close> only where \<open>toFixed\<close> falls
  back to \<open>ToString\<close>, for magnitudes of \<open>10^21\<close> and more.
\<close>

abbreviation e_acute :: js_string where "e_acute \<equiv> [CHR 0xC3, CHR 0xA9]"

record card =
  card_image :: js_string
  card_alt :: js_string
  card_title :: js_string
  price_text :: "js_string option"
  installments_text :: "js_string option"
  buy_product :: product

definition installment_amount :: "product \<Rightarrow> js_string option" where
  "installment_amount p = js_to_fixed2 (js_divide (price p) (parcels p))"

definition render_card :: "product \<Rightarrow> card" where
  "render_card p =
     \<lparr>card_image = product_image p, card_alt = title p, card_title = title p,
      price_text = map_option (js_replace_first CHR ''.'' CHR '','') (to_fixed2 (price p)),
      installments_text =
        map_option (\<lambda>t. ''Em at'' @ e_acute @ '' '' @ int_to_string (parcels p) @ ''x R$ '' @
                        js_replace_first CHR ''.'' CHR '','' t @ '' sem juros'')
          (installment_amount p),
      buy_product = p\<rparr>"

declare installment_amount_def [model_defs] render_card_def [model_defs]

lemma buy_product_render_card [simp]: "buy_product (render_card p) = p"
  by (simp add: render_card_def)

lemma js_replace_first_skip:
  "a \<notin> set xs \<Longrightarrow> js_replace_first a b (xs @ a # ys) = xs @ b # ys"
  by (induction xs) auto

lemma dot_not_digit: "list_all is_digit xs \<Longrightarrow> CHR ''.'' \<notin> set xs"
  by (auto simp: list_all_iff is_digit_def)

lemma installment_amount_pos:
  assumes "1 \<le> parcels p" "0 \<le> price p" "price p < 10 ^ 21"
  shows "installment_amount p = to_fixed2 (price p / of_int (parcels p))"
    and "\<bar>price p / of_int (parcels p)\<bar> < 10 ^ 21"
proof -
  let ?q = "price p / of_int (parcels p)"
  have d: "(1::rat) \<le> of_int (parcels p)" using assms(1) by simp
  have "?q \<le> price p / 1"
    by (rule divide_left_mono) (use assms(2) d in simp_all)
  then show "\<bar>?q\<bar> < 10 ^ 21" using assms(2,3) d by simp
  show "installment_amount p = to_fixed2 ?q"
    using assms(1) by (simp add: installment_amount_def js_divide_def)
qed

text \<open>
  Claim C25. With at least one parcel and a price below \<open>10^21\<close>, the installment line
  reads "Em at\<acute>e {parcels}x R$ {amount} sem juros", where the amount, read back with the
  comma as decimal point, is within half a cent of the price divided by the parcels.
\<close>

theorem installment_display:
  assumes "1 \<le> parcels p" "0 \<le> price p" "price p < 10 ^ 21"
  shows "\<exists>t v. installments_text (render_card p) =
                 Some (''Em at'' @ e_acute @ '' '' @ int_to_string (parcels p) @ ''x R$ '' @
                       js_replace_first CHR ''.'' CHR '','' t @ '' sem juros'') \<and>
               parse_float t = JNum v \<and> \<bar>v - price p / of_int (parcels p)\<bar> \<le> 1 / 200"
proof -
  let ?q = "price p / of_int (parcels p)"
  have "0 \<le> ?q" using assms by simp
  moreover obtain s where "to_fixed2 ?q = Some s"
    "parse_float s = JNum ((if ?q < 0 then -1 else 1) * of_int \<lfloor>\<bar>?q\<bar> * 100 + 1 / 2\<rfloor> / 100)"
    "\<bar>(if ?q < 0 then -1 else 1) * of_int \<lfloor>\<bar>?q\<bar> * 100 + 1 / 2\<rfloor> / 100 - ?q\<bar> \<le> 1 / 200"
    using to_fixed2_parse [OF installment_amount_pos(2) [OF assms]] by blast
  ultimately show ?thesis
    using installment_amount_pos(1) [OF assms] by (auto simp: render_card_def)
qed

lemma installment_display_witness:
  "\<exists>t v. installments_text (render_card (seed_catalog ! 5)) =
          Some (''Em at'' @ e_acute @ '' 3x R$ '' @ js_replace_first CHR ''.'' CHR '','' t @
                '' sem juros'') \<and>
          parse_float t = JNum v \<and> \<bar>v - 78.8 / 3\<bar> \<le> 1 / 200"
proof -
  have p: "parcels (seed_catalog ! 5) = 3" "price (seed_catalog ! 5) = 78.8"
    by (simp_all add: create_sample_products_def)
  have "int_to_string 3 = ''3''" by (simp add: to_fixed2_simps)
  then show ?thesis
    using installment_display [of "seed_catalog ! 5"] p by simp
qed

text \<open>
  Claim C26. The division by \<open>p.parcels\<close> is not guarded: a product with zero parcels,
  which the data model forbids but nothing in the script rejects, is shown as
  "Em at\<acute>e 0x R$ Infinity sem juros", and as "NaN" when its price is zero too.
\<close>

theorem zero_parcels_display:
  assumes "parcels p = 0"
  shows "installments_text (render_card p) =
           Some (''Em at'' @ e_acute @ '' 0x R$ '' @
                 (if price p = 0 then ''NaN'' else if 0 < price p then ''Infinity'' else ''-Infinity'') @
                 '' sem juros'')"
  using assms by (simp add: render_card_def installment_amount_def to_fixed2_simps)

lemma zero_parcels_display_witness:
  "installments_text (render_card ((seed_catalog ! 0)\<lparr>parcels := 0\<rparr>)) =
     Some (''Em at'' @ e_acute @ '' 0x R$ Infinity sem juros'')"
  using zero_parcels_display [of "(seed_catalog ! 0)\<lparr>parcels := 0\<rparr>"]
  by (simp add: create_sample_products_def)

text \<open>
  Claim C27. For a price in the range of \<open>toFixed\<close>, the price text is a non-empty run of
  digits, a comma and two digits, and those digits spell the price in cents rounded
  half-up: the decimal point of \<open>toFixed\<close> is the only one the \<open>replace\<close> meets.
\<close>

theorem price_text_format:
  assumes "0 \<le> price p" "price p < 10 ^ 21"
  shows "\<exists>ds c1 c2. price_text (render_card p) = Some (ds @ [CHR '','', c1, c2]) \<and> ds \<noteq> [] \<and>
           list_all is_digit (ds @ [c1, c2]) \<and>
           int (digits_value (ds @ [c1, c2]) 0) = \<lfloor>price p * 100 + 1 / 2\<rfloor>"
proof -
  define n where "n = nat \<lfloor>price p * 100 + 1 / 2\<rfloor>"
  define ds where "ds = nat_digits (n div 100)"
  define c1 where "c1 = digit_of_nat (n mod 100 div 10)"
  define c2 where "c2 = digit_of_nat (n mod 10)"
  have t: "to_fixed2 (price p) = Some (ds @ [CHR ''.'', c1, c2])"
    using assms by (simp add: to_fixed2_def Let_def n_def ds_def c1_def c2_def)
  have dd: "list_all is_digit ds" using nat_digits_ok by (simp add: ds_def)
  have cd: "is_digit c1" "is_digit c2" unfolding c1_def c2_def
    by (rule conjunct1 [OF digit_char], simp)+
  obtain d ds' where "nat_digits (n div 100) = d # ds'" "is_digit d" by (rule nat_digits_hd)
  then have ne: "ds \<noteq> []" by (simp add: ds_def)
  have v: "digits_value (ds @ [c1, c2]) 0 = n"
    unfolding ds_def c1_def c2_def by (rule fixed_digits_value)
  have "price_text (render_card p) = Some (ds @ [CHR '','', c1, c2])"
    using t js_replace_first_skip [OF dot_not_digit [OF dd]] by (simp add: render_card_def)
  moreover have "int n = \<lfloor>price p * 100 + 1 / 2\<rfloor>" using assms(1) by (simp add: n_def)
  ultimately show ?thesis using ne dd cd v by auto
qed

lemma price_text_format_witness:
  "\<exists>ds c1 c2. price_text (render_card (seed_catalog ! 2)) = Some (ds @ [CHR '','', c1, c2]) \<and>
     ds \<noteq> [] \<and> list_all is_digit (ds @ [c1, c2]) \<and> int (digits_value (ds @ [c1, c2]) 0) = 9590"
proof -
  have p: "price (seed_catalog ! 2) = 95.9" by (simp add: create_sample_products_def)
  show ?thesis using price_text_format [of "seed_catalog ! 2"] p by simp
qed

end
