(* ===== verification/Pagination.thy ===== *)
theory Pagination
  imports Query Card
begin

text \<open>
  Pagination in scripit.js: the fixed page size, the page count shared by \<open>renderProducts\<close>
  and the next-page handler, the slice of \<open>filtered\<close> one page shows, the rendered summary
  (count, "page / pages", the cards of \<open>Card\<close>, the empty-result message), and the guards of the
  previous/next handlers.
\<close>

definition PRODUCTS_PER_PAGE :: int where
  "PRODUCTS_PER_PAGE = 8"

definition total_pages :: "nat \<Rightarrow> int" where
  "total_pages n = max 1 \<lceil>(of_nat n :: rat) / of_int PRODUCTS_PER_PAGE\<rceil>"

definition page_slice :: "int \<Rightarrow> 'a list \<Rightarrow> 'a list" where
  "page_slice page xs =
     (let start = (page - 1) * PRODUCTS_PER_PAGE in js_slice xs start (start + PRODUCTS_PER_PAGE))"

record view =
  products_count :: nat
  page_info :: "int \<times> int"
  cards :: "card list"
  no_results :: bool

definition render_products :: "int \<Rightarrow> product list \<Rightarrow> view" where
  "render_products page filtered =
     (let slice = page_slice page filtered
      in \<lparr>products_count = length filtered, page_info = (page, total_pages (length filtered)),
          cards = map render_card slice, no_results = (slice = [])\<rparr>)"

definition prev_page :: "int \<Rightarrow> int" where
  "prev_page page = (if page > 1 then page - 1 else page)"

definition next_page :: "nat \<Rightarrow> int \<Rightarrow> int" where
  "next_page n page = (let totalPages = total_pages n in if page < totalPages then page + 1 else page)"

declare PRODUCTS_PER_PAGE_def [model_defs] total_pages_def [model_defs] page_slice_def [model_defs]
  render_products_def [model_defs] js_slice_def [model_defs] js_rel_index_def [model_defs]

lemma total_pages_div: "total_pages n = max 1 ((int n + 7) div 8)"
proof -
  have "(of_nat n :: rat) / of_int 8 = of_int (int n) / of_int 8" by simp
  then have "\<lceil>(of_nat n :: rat) / of_int 8\<rceil> = - (- int n div 8)"
    by (simp only: ceiling_divide_eq_div)
  also have "\<dots> = (int n + 7) div 8" by presburger
  finally show ?thesis by (simp add: total_pages_def PRODUCTS_PER_PAGE_def)
qed

lemma total_pages_nat: "total_pages n = int (max 1 ((n + 7) div 8))"
  by (simp add: total_pages_div zdiv_int)

lemma total_pages_ge1: "1 \<le> total_pages n"
  by (simp add: total_pages_div)

lemma page_slice_take:
  assumes "1 \<le> page"
  shows "page_slice page xs = take 8 (drop (nat (page - 1) * 8) xs)"
proof -
  have "page_slice page xs = js_slice xs ((page - 1) * 8) ((page - 1) * 8 + 8)"
    by (simp only: page_slice_def PRODUCTS_PER_PAGE_def Let_def)
  also have "\<dots> = take (nat 8) (drop (nat ((page - 1) * 8)) xs)"
    using assms js_slice_nonneg [of "(page - 1) * 8" "(page - 1) * 8 + 8" xs] by simp
  also have "nat ((page - 1) * 8) = nat (page - 1) * 8"
    by (simp add: nat_mult_distrib)
  finally show ?thesis by simp
qed

lemma page_slice_Suc: "page_slice (int (Suc i)) xs = take 8 (drop (i * 8) xs)"
  by (simp only: page_slice_take of_nat_Suc) simp_all

lemma set_page_slice: "x \<in> set (page_slice p xs) \<Longrightarrow> x \<in> set xs"
  using set_js_slice by (fastforce simp: page_slice_def Let_def)

lemma page_index:
  assumes "1 \<le> page" "page \<le> total_pages n"
  obtains i where "page = int (Suc i)" "i < max 1 ((n + 7) div 8)"
proof -
  have "page = int (Suc (nat (page - 1)))" using assms(1) by simp
  moreover have "nat (page - 1) < max 1 ((n + 7) div 8)"
    using assms by (simp add: total_pages_nat)
  ultimately show ?thesis using that by blast
qed

lemma prev_page_bounds:
  "1 \<le> page \<Longrightarrow> page \<le> total_pages n \<Longrightarrow> 1 \<le> prev_page page \<and> prev_page page \<le> total_pages n"
  by (simp add: prev_page_def)

lemma next_page_bounds:
  "1 \<le> page \<Longrightarrow> page \<le> total_pages n \<Longrightarrow> 1 \<le> next_page n page \<and> next_page n page \<le> total_pages n"
  by (simp add: next_page_def Let_def)

text \<open>
  Claim C8. Concatenating the slices shown on pages 1 to \<open>totalPages\<close> gives back the
  whole result, in order: every filtered product is shown on exactly one page.
\<close>

theorem pages_concat:
  "concat (map (\<lambda>k. page_slice (int k) xs) [1..<nat (total_pages (length xs)) + 1]) = xs"
proof -
  let ?n = "nat (total_pages (length xs))"
  have "[1..<?n + 1] = map Suc [0..<?n]" by (simp only: map_Suc_upt) simp
  then have "map (\<lambda>k. page_slice (int k) xs) [1..<?n + 1] =
             map (\<lambda>i. page_slice (int (Suc i)) xs) [0..<?n]"
    by simp
  also have "\<dots> = map (\<lambda>i. take 8 (drop (i * 8) xs)) [0..<?n]"
    by (simp only: page_slice_Suc)
  finally have m: "map (\<lambda>k. page_slice (int k) xs) [1..<?n + 1] =
                   map (\<lambda>i. take 8 (drop (i * 8) xs)) [0..<?n]" .
  have "length xs \<le> ?n * 8"
    by (simp add: total_pages_nat)
  with m show ?thesis by (simp add: concat_chunks)
qed

lemma pages_concat_witness:
  "concat (map (\<lambda>k. page_slice (int k) seed_catalog)
     [1..<nat (total_pages (length seed_catalog)) + 1]) = seed_catalog"
  by (rule pages_concat)

text \<open>
  Claim C9. On a page between 1 and \<open>totalPages\<close>, every page but the last shows
  exactly 8 products, the last shows 1 to 8 when there are results, and a page is empty
  (the "Nenhum produto encontrado" message) exactly when the result is empty.
\<close>

theorem page_sizes:
  assumes "1 \<le> page" "page \<le> total_pages (length xs)"
  shows "(page < total_pages (length xs) \<longrightarrow> length (page_slice page xs) = 8) \<and>
         (page = total_pages (length xs) \<and> xs \<noteq> [] \<longrightarrow>
            1 \<le> length (page_slice page xs) \<and> length (page_slice page xs) \<le> 8) \<and>
         (page_slice page xs = [] \<longleftrightarrow> xs = [])"
proof -
  obtain i where i: "page = int (Suc i)" "i < max 1 ((length xs + 7) div 8)"
    using page_index [OF assms] .
  let ?m = "max 1 ((length xs + 7) div 8)"
  have sl: "page_slice page xs = take 8 (drop (i * 8) xs)"
    by (simp only: i(1) page_slice_Suc)
  have lt: "page < total_pages (length xs) \<longleftrightarrow> Suc i < ?m"
    and eq: "page = total_pages (length xs) \<longleftrightarrow> Suc i = ?m"
    unfolding i(1) total_pages_nat by (simp_all only: of_nat_less_iff of_nat_eq_iff)
  have full: "Suc i < ?m \<Longrightarrow> 8 \<le> length xs - i * 8" by linarith
  have last: "Suc i = ?m \<Longrightarrow> xs \<noteq> [] \<Longrightarrow> 1 \<le> length xs - i * 8" by (cases xs) auto
  have nonempty: "xs \<noteq> [] \<Longrightarrow> 1 \<le> length xs - i * 8" using i(2) by (cases xs) auto
  show ?thesis
    unfolding sl lt eq using full last nonempty by fastforce
qed

lemma page_sizes_witness:
  "length (page_slice 1 seed_catalog) = 8 \<and> length (page_slice 2 seed_catalog) = 2"
proof -
  have t: "total_pages (length seed_catalog) = 2"
    by (simp add: total_pages_nat create_sample_products_def)
  have "length (page_slice 1 seed_catalog) = 8"
    using page_sizes [of 1 seed_catalog] t by simp
  moreover have "1 \<le> length (page_slice 2 seed_catalog)"
    using page_sizes [of 2 seed_catalog] t by (simp add: create_sample_products_def)
  moreover have "length (page_slice 2 seed_catalog) = 2"
    by (simp add: page_slice_Suc [of 1, simplified] create_sample_products_def)
  ultimately show ?thesis by simp
qed
end
