(* ===== verification/Page.thy ===== *)
theory Page
  imports Pagination
begin

text \<open>
  The page as a state machine. The module-level variables of scripit.js (\<open>products\<close>,
  \<open>filtered\<close>, \<open>currentPage\<close>, \<open>brandsSet\<close>, \<open>categoriesSet\<close>), the closure variables
  of the \<open>DOMContentLoaded\<close> handler (\<open>cart\<close>, the pending debounce timer) and the DOM
  state the handlers read or write (the form controls, the suggestion list) form one
  record. Each event listener is one equation of \<open>step\<close> (the WhatsApp button's only
  changes the outside world, see \<open>Effects\<close>); \<open>init_page\<close> is the start-up
  sequence. The randomness of the \<open>relevance\<close> sort is a parameter of every step, and
  \<open>reachable\<close> closes the start states under steps with any permutation the engine may
  produce.
\<close>

record page_state =
  products :: "product list"
  filtered :: "product list"
  current_page :: int
  brands_set :: "js_string list"
  categories_set :: "js_string list"
  cart :: "product list"
  controls :: inputs
  sugg_hidden :: bool
  sugg_items :: "js_string list"
  pending_query :: "js_string option"
    \<comment> \<open>the argument of the debounced callback, while its timer is pending\<close>

datatype event =
    SortChange js_string
  | OpportunityChange nat bool
  | SearchInput js_string
  | DebounceFire
  | SuggestionClick nat
  | BrandChange nat bool
  | CategoryChange nat bool
  | ShowMoreBrands
  | PriceMinInput js_string
  | PriceMaxInput js_string
  | ApplyPrice
  | PrevPage
  | NextPage
  | WhatsAppClick
  | BuyClick nat

text \<open>
  \<open>applyFiltersAndRender\<close>: recompute \<open>filtered\<close> from the controls and reset the page
  (rendering reads the state, see \<open>view_of\<close>).
\<close>

definition apply_filters_and_render :: "shuffle \<Rightarrow> page_state \<Rightarrow> page_state" where
  "apply_filters_and_render sh s =
     s\<lparr>filtered := apply_filters sh (controls s) (products s), current_page := 1\<rparr>"

definition set_box :: "checkbox list \<Rightarrow> nat \<Rightarrow> bool \<Rightarrow> checkbox list" where
  "set_box boxes k b = boxes[k := (fst (boxes ! k), b)]"

text \<open>\<open>addToCart\<close>: append, duplicates allowed (its alert is an action of \<open>Effects\<close>).\<close>

definition add_to_cart :: "page_state \<Rightarrow> product \<Rightarrow> page_state" where
  "add_to_cart s p = s\<lparr>cart := cart s @ [p]\<rparr>"

fun step :: "shuffle \<Rightarrow> page_state \<Rightarrow> event \<Rightarrow> page_state" where
  "step sh s (SortChange v) =
     apply_filters_and_render sh
       (s\<lparr>controls := (controls s)\<lparr>sort_value := v\<rparr>, current_page := 1\<rparr>)"
| "step sh s (OpportunityChange k b) =
     (if k < length (opportunity_boxes (controls s)) then
        apply_filters_and_render sh
          (s\<lparr>controls := (controls s)\<lparr>opportunity_boxes := (opportunity_boxes (controls s))[k := b]\<rparr>,
             current_page := 1\<rparr>)
      else s)"
| "step sh s (SearchInput v) =
     s\<lparr>controls := (controls s)\<lparr>search_value := v\<rparr>, pending_query := Some (js_to_lower (js_trim v))\<rparr>"
| "step sh s DebounceFire =
     (case pending_query s of
       None \<Rightarrow> s
     | Some q \<Rightarrow>
         (let (h, items) = render_suggestions (products s) q
          in apply_filters_and_render sh
               (s\<lparr>sugg_hidden := h, sugg_items := items, current_page := 1, pending_query := None\<rparr>)))"
| "step sh s (SuggestionClick k) =
     (if k < length (sugg_items s) then
        apply_filters_and_render sh
          (s\<lparr>controls := (controls s)\<lparr>search_value := sugg_items s ! k\<rparr>, sugg_hidden := True,
             current_page := 1\<rparr>)
      else s)"
| "step sh s (BrandChange k b) =
     (if k < length (brand_boxes (controls s)) then
        apply_filters_and_render sh
          (s\<lparr>controls := (controls s)\<lparr>brand_boxes := set_box (brand_boxes (controls s)) k b\<rparr>,
             current_page := 1\<rparr>)
      else s)"
| "step sh s (CategoryChange k b) =
     (if k < length (cat_boxes (controls s)) then
        apply_filters_and_render sh
          (s\<lparr>controls := (controls s)\<lparr>cat_boxes := set_box (cat_boxes (controls s)) k b\<rparr>,
             current_page := 1\<rparr>)
      else s)"
| "step sh s ShowMoreBrands =
     (let e = \<not> brands_expanded (controls s);
          (bb, cb, _) = render_filter_checkboxes (brands_set s) (categories_set s) e
      in s\<lparr>controls := (controls s)\<lparr>brands_expanded := e, brand_boxes := bb, cat_boxes := cb\<rparr>\<rparr>)"
| "step sh s (PriceMinInput v) = s\<lparr>controls := (controls s)\<lparr>price_min_value := v\<rparr>\<rparr>"
| "step sh s (PriceMaxInput v) = s\<lparr>controls := (controls s)\<lparr>price_max_value := v\<rparr>\<rparr>"
| "step sh s ApplyPrice = apply_filters_and_render sh (s\<lparr>current_page := 1\<rparr>)"
| "step sh s PrevPage = (if current_page s > 1 then s\<lparr>current_page := current_page s - 1\<rparr> else s)"
| "step sh s NextPage =
     (let totalPages = total_pages (length (filtered s))
      in if current_page s < totalPages then s\<lparr>current_page := current_page s + 1\<rparr> else s)"
| "step sh s WhatsAppClick = s"
| "step sh s (BuyClick k) =
     (let slice = page_slice (current_page s) (filtered s)
      in if k < length slice then add_to_cart s (slice ! k) else s)"

text \<open>
  Start-up: the seed catalogue, the derived sets, fresh checkboxes, a first
  recomputation. The controls' initial contents come from the HTML, which is not part of
  the sources: they are a parameter.
\<close>

definition init_page :: "shuffle \<Rightarrow> clock \<Rightarrow> inputs \<Rightarrow> page_state" where
  "init_page sh now i0 =
     (let ps = create_sample_products now;
          (bs, cs) = populate_filter_sets ps;
          (bb, cb, _) = render_filter_checkboxes bs cs (brands_expanded i0)
      in apply_filters_and_render sh
           \<lparr>products = ps, filtered = [], current_page = 1, brands_set = bs, categories_set = cs,
            cart = [], controls = i0\<lparr>brand_boxes := bb, cat_boxes := cb\<rparr>,
            sugg_hidden = True, sugg_items = [], pending_query = None\<rparr>)"

fun run :: "shuffle \<Rightarrow> page_state \<Rightarrow> event list \<Rightarrow> page_state" where
  "run sh s [] = s"
| "run sh s (e # es) = run sh (step sh s e) es"

definition view_of :: "page_state \<Rightarrow> view" where
  "view_of s = render_products (current_page s) (filtered s)"

definition cart_count :: "page_state \<Rightarrow> nat" where
  "cart_count s = length (cart s)"

inductive reachable :: "page_state \<Rightarrow> bool" where
  start: "perm_oracle sh \<Longrightarrow> reachable (init_page sh now i0)"
| step: "reachable s \<Longrightarrow> perm_oracle sh \<Longrightarrow> reachable (step sh s e)"

text \<open>
  The invariant: the page lies between 1 and \<open>totalPages\<close>; \<open>filtered\<close> is a
  permutation of the catalogue filtered by some filter state; the cart holds catalogue
  products; the catalogue is the seed and the derived sets are those of the catalogue.
\<close>

definition page_inv :: "page_state \<Rightarrow> bool" where
  "page_inv s \<longleftrightarrow>
     1 \<le> current_page s \<and> current_page s \<le> total_pages (length (filtered s)) \<and>
     (\<exists>fs. mset (filtered s) = mset (filter_products fs (products s))) \<and>
     set (cart s) \<subseteq> set (products s) \<and>
     (\<exists>now. products s = create_sample_products now) \<and>
     (brands_set s, categories_set s) = populate_filter_sets (products s)"

text \<open>
  The events after which \<open>applyFiltersAndRender\<close> runs: the listeners that call it,
  under the guards of the model (an existing checkbox or list item, a pending timer).
\<close>

fun triggers_refilter :: "page_state \<Rightarrow> event \<Rightarrow> bool" where
  "triggers_refilter s (SortChange v) = True"
| "triggers_refilter s (OpportunityChange k b) = (k < length (opportunity_boxes (controls s)))"
| "triggers_refilter s DebounceFire = (pending_query s \<noteq> None)"
| "triggers_refilter s (SuggestionClick k) = (k < length (sugg_items s))"
| "triggers_refilter s (BrandChange k b) = (k < length (brand_boxes (controls s)))"
| "triggers_refilter s (CategoryChange k b) = (k < length (cat_boxes (controls s)))"
| "triggers_refilter s ApplyPrice = True"
| "triggers_refilter s _ = False"


subsection \<open>The invariant\<close>

lemma page_inv_intro:
  assumes "1 \<le> current_page s" "current_page s \<le> total_pages (length (filtered s))"
    "mset (filtered s) = mset (filter_products fs (products s))"
    "set (cart s) \<subseteq> set (products s)" "products s = create_sample_products now"
    "(brands_set s, categories_set s) = populate_filter_sets (products s)"
  shows "page_inv s"
  unfolding page_inv_def using assms by blast

lemma apply_filters_and_render_inv:
  assumes "perm_oracle sh" "set (cart s) \<subseteq> set (products s)"
    "products s = create_sample_products now"
    "(brands_set s, categories_set s) = populate_filter_sets (products s)"
  shows "page_inv (apply_filters_and_render sh s)"
proof (rule page_inv_intro)
  let ?t = "apply_filters_and_render sh s"
  show "1 \<le> current_page ?t" by (simp add: apply_filters_and_render_def)
  show "current_page ?t \<le> total_pages (length (filtered ?t))"
    by (simp add: apply_filters_and_render_def total_pages_ge1)
  show "mset (filtered ?t) = mset (filter_products (read_filters (controls s)) (products ?t))"
    by (simp add: apply_filters_and_render_def mset_apply_filters [OF assms(1)])
  show "set (cart ?t) \<subseteq> set (products ?t)" using assms(2) by (simp add: apply_filters_and_render_def)
  show "products ?t = create_sample_products now" using assms(3) by (simp add: apply_filters_and_render_def)
  show "(brands_set ?t, categories_set ?t) = populate_filter_sets (products ?t)"
    using assms(4) by (simp add: apply_filters_and_render_def)
qed

lemma page_invE:
  assumes "page_inv s"
  obtains fs now where "1 \<le> current_page s" "current_page s \<le> total_pages (length (filtered s))"
    "mset (filtered s) = mset (filter_products fs (products s))"
    "set (cart s) \<subseteq> set (products s)" "products s = create_sample_products now"
    "(brands_set s, categories_set s) = populate_filter_sets (products s)"
  using assms unfolding page_inv_def by blast

lemma page_inv_cart:
  assumes "page_inv s" "x \<in> set (filtered s)"
  shows "page_inv (add_to_cart s x)"
proof -
  obtain fs now where b: "1 \<le> current_page s" "current_page s \<le> total_pages (length (filtered s))"
    and m: "mset (filtered s) = mset (filter_products fs (products s))"
    and c: "set (cart s) \<subseteq> set (products s)" and p: "products s = create_sample_products now"
    and d: "(brands_set s, categories_set s) = populate_filter_sets (products s)"
    using assms(1) by (rule page_invE)
  have "x \<in> set (products s)"
    using set_mset_eq_filter [OF m [unfolded filter_products_def] assms(2)] by simp
  with c have cs: "set (cart (add_to_cart s x)) \<subseteq> set (products (add_to_cart s x))"
    by (simp add: add_to_cart_def)
  show ?thesis
    by (rule page_inv_intro [of _ fs now]) (use b m p d cs in \<open>simp_all add: add_to_cart_def\<close>)
qed

lemma page_inv_controls:
  "page_inv s \<Longrightarrow> page_inv (s\<lparr>controls := c, pending_query := q\<rparr>)"
  by (simp add: page_inv_def)

lemma page_inv_controls_only: "page_inv s \<Longrightarrow> page_inv (s\<lparr>controls := c\<rparr>)"
  by (simp add: page_inv_def)

lemma page_inv_page:
  "page_inv s \<Longrightarrow> 1 \<le> p \<Longrightarrow> p \<le> total_pages (length (filtered s)) \<Longrightarrow>
   page_inv (s\<lparr>current_page := p\<rparr>)"
  by (simp add: page_inv_def)

lemma page_inv_bounds:
  "page_inv s \<Longrightarrow> 1 \<le> current_page s \<and> current_page s \<le> total_pages (length (filtered s))"
  by (simp add: page_inv_def)

lemma afr_step:
  assumes "page_inv s" "perm_oracle sh"
    "products t = products s" "cart t = cart s" "brands_set t = brands_set s"
    "categories_set t = categories_set s"
  shows "page_inv (apply_filters_and_render sh t)"
proof -
  obtain fs now where "set (cart s) \<subseteq> set (products s)" "products s = create_sample_products now"
    "(brands_set s, categories_set s) = populate_filter_sets (products s)"
    using assms(1) by (rule page_invE)
  with assms(2-) show ?thesis
    by (intro apply_filters_and_render_inv [of sh t now]) simp_all
qed

lemma step_inv:
  assumes inv: "page_inv s" and sh: "perm_oracle sh"
  shows "page_inv (step sh s e)"
proof (cases e)
  case (SortChange v)
  then show ?thesis by (simp add: afr_step [OF inv sh])
next
  case (OpportunityChange k b)
  then show ?thesis by (simp add: afr_step [OF inv sh] inv)
next
  case (SearchInput v)
  then show ?thesis by (simp add: page_inv_controls inv)
next
  case DebounceFire
  then show ?thesis by (simp add: afr_step [OF inv sh] inv split: option.split prod.split)
next
  case (SuggestionClick k)
  then show ?thesis by (simp add: afr_step [OF inv sh] inv)
next
  case (BrandChange k b)
  then show ?thesis by (simp add: afr_step [OF inv sh] inv)
next
  case (CategoryChange k b)
  then show ?thesis by (simp add: afr_step [OF inv sh] inv)
next
  case ShowMoreBrands
  then show ?thesis by (simp add: page_inv_controls_only inv Let_def split: prod.split)
next
  case (PriceMinInput v)
  then show ?thesis by (simp add: page_inv_controls_only inv)
next
  case (PriceMaxInput v)
  then show ?thesis by (simp add: page_inv_controls_only inv)
next
  case ApplyPrice
  then show ?thesis by (simp add: afr_step [OF inv sh])
next
  case PrevPage
  then show ?thesis using page_inv_bounds [OF inv] by (simp add: page_inv_page inv)
next
  case NextPage
  then show ?thesis using page_inv_bounds [OF inv] by (simp add: page_inv_page inv Let_def)
next
  case WhatsAppClick
  then show ?thesis by (simp add: inv)
next
  case (BuyClick k)
  let ?sl = "page_slice (current_page s) (filtered s)"
  have "page_inv (add_to_cart s (?sl ! k))" if k: "k < length ?sl"
  proof -
    from k have "?sl ! k \<in> set ?sl" by (rule nth_mem)
    then have "?sl ! k \<in> set (filtered s)" by (rule set_page_slice)
    then show ?thesis by (rule page_inv_cart [OF inv])
  qed
  with BuyClick inv show ?thesis by (simp add: Let_def)
qed

lemma init_inv:
  assumes "perm_oracle sh"
  shows "page_inv (init_page sh now i0)"
proof -
  obtain bs cs where p: "populate_filter_sets (create_sample_products now) = (bs, cs)"
    by (cases "populate_filter_sets (create_sample_products now)")
  obtain bb cb lbl where r: "render_filter_checkboxes bs cs (brands_expanded i0) = (bb, cb, lbl)"
    by (cases "render_filter_checkboxes bs cs (brands_expanded i0)") auto
  let ?s0 = "\<lparr>products = create_sample_products now, filtered = [], current_page = 1,
     brands_set = bs, categories_set = cs, cart = [],
     controls = i0\<lparr>brand_boxes := bb, cat_boxes := cb\<rparr>,
     sugg_hidden = True, sugg_items = [], pending_query = None\<rparr>"
  have "init_page sh now i0 = apply_filters_and_render sh ?s0"
    by (simp add: init_page_def p r)
  moreover have "page_inv (apply_filters_and_render sh ?s0)"
    by (rule apply_filters_and_render_inv [OF assms, of _ now]) (simp_all add: p)
  ultimately show ?thesis by simp
qed

lemma reachable_inv: "reachable s \<Longrightarrow> page_inv s"
proof (induction rule: reachable.induct)
  case (start sh now i0)
  then show ?case by (rule init_inv)
next
  case (step s sh e)
  then show ?case by (simp add: step_inv)
qed

text \<open>
  Claim C10. In every reachable state of the page the current page lies between 1 and
  \<open>totalPages\<close> of the current result, whatever the events and the engine's shuffles.
\<close>

theorem reachable_page_bounds:
  "reachable s \<Longrightarrow> 1 \<le> current_page s \<and> current_page s \<le> total_pages (length (filtered s))"
  by (rule page_inv_bounds [OF reachable_inv])

lemma reachable_example: "reachable (init_page rev (\<lambda>_. 0) blank_inputs)"
  by (rule reachable.start [OF perm_oracle_rev])

lemma reachable_page_bounds_witness:
  "1 \<le> current_page (init_page rev (\<lambda>_. 0) blank_inputs) \<and>
   current_page (init_page rev (\<lambda>_. 0) blank_inputs)
     \<le> total_pages (length (filtered (init_page rev (\<lambda>_. 0) blank_inputs)))"
  by (rule reachable_page_bounds [OF reachable_example])

text \<open>
  Claim C13. In every reachable state the catalogue is the seed list, \<open>filtered\<close> holds
  exactly the catalogue products that pass some filter state (in some order, never a stale
  or foreign product), and the cart holds only catalogue products.
\<close>

theorem reachable_consistent:
  assumes "reachable s"
  shows "(\<exists>now. products s = create_sample_products now) \<and>
         (\<exists>fs. mset (filtered s) = mset (filter_products fs (products s))) \<and>
         set (cart s) \<subseteq> set (products s)"
proof -
  from reachable_inv [OF assms] obtain fs now where
    "mset (filtered s) = mset (filter_products fs (products s))"
    "set (cart s) \<subseteq> set (products s)" "products s = create_sample_products now"
    by (rule page_invE)
  then show ?thesis by blast
qed

lemma reachable_consistent_witness:
  "(\<exists>now. products (init_page rev (\<lambda>_. 0) blank_inputs) = create_sample_products now) \<and>
   (\<exists>fs. mset (filtered (init_page rev (\<lambda>_. 0) blank_inputs)) =
      mset (filter_products fs (products (init_page rev (\<lambda>_. 0) blank_inputs)))) \<and>
   set (cart (init_page rev (\<lambda>_. 0) blank_inputs))
     \<subseteq> set (products (init_page rev (\<lambda>_. 0) blank_inputs))"
  by (rule reachable_consistent [OF reachable_example])

text \<open>
  Claim C12. Page navigation never refilters: "next" moves to the following page but
  never past \<open>totalPages\<close>, "previous" moves back but never below 1, and the result is
  unchanged.
\<close>

theorem page_navigation:
  assumes "reachable s"
  shows "filtered (step sh s NextPage) = filtered s \<and>
         current_page (step sh s NextPage) = min (current_page s + 1) (total_pages (length (filtered s))) \<and>
         filtered (step sh s PrevPage) = filtered s \<and>
         current_page (step sh s PrevPage) = max (current_page s - 1) 1"
  using page_inv_bounds [OF reachable_inv [OF assms]] by (auto simp: Let_def)

lemma page_navigation_witness:
  "current_page (step rev (init_page rev (\<lambda>_. 0) blank_inputs) PrevPage) =
   max (current_page (init_page rev (\<lambda>_. 0) blank_inputs) - 1) 1"
  using page_navigation [OF reachable_example, of rev] by simp

text \<open>
  Claim C11. Every event either reruns the whole pipeline, after which the page is 1 and
  the result is the pipeline applied to the current controls (sort change, opportunity,
  brand or category checkbox, debounced search, suggestion click, price "Aplicar"), or
  leaves the result and the catalogue untouched (typing, page navigation, buying,
  "Ver mais").
\<close>

theorem refilter_or_reslice:
  "(triggers_refilter s e \<longrightarrow>
      current_page (step sh s e) = 1 \<and>
      filtered (step sh s e) = apply_filters sh (controls (step sh s e)) (products (step sh s e))) \<and>
   (\<not> triggers_refilter s e \<longrightarrow>
      filtered (step sh s e) = filtered s \<and> products (step sh s e) = products s)"
  by (cases e) (auto simp: apply_filters_and_render_def Let_def add_to_cart_def
      split: option.split prod.split)

lemma refilter_or_reslice_witness:
  "current_page (step rev (init_page rev (\<lambda>_. 0) blank_inputs) ApplyPrice) = 1"
  using refilter_or_reslice [of "init_page rev (\<lambda>_. 0) blank_inputs" ApplyPrice rev] by simp

text \<open>
  Claim C21. With the debounce, a burst of keystrokes followed by the timer firing has
  the effect of the last keystroke alone followed by the timer: only the newest input
  is searched.
\<close>

theorem debounce_newest_wins:
  "run sh s (map SearchInput (xs @ [x]) @ [DebounceFire]) = run sh s [SearchInput x, DebounceFire]"
proof -
  have "step sh (step sh t (SearchInput a)) (SearchInput b) = step sh t (SearchInput b)" for t a b
    by simp
  then have "run sh t (map SearchInput (xs @ [x]) @ es) = run sh t (SearchInput x # es)" for t es
    by (induction xs arbitrary: t) simp_all
  then show ?thesis by simp
qed

lemma debounce_newest_wins_witness:
  "run rev (init_page rev (\<lambda>_. 0) blank_inputs)
     (map SearchInput ([''f'', ''fi''] @ [''fil'']) @ [DebounceFire]) =
   run rev (init_page rev (\<lambda>_. 0) blank_inputs) [SearchInput ''fil'', DebounceFire]"
  by (rule debounce_newest_wins)

text \<open>
  Claim C15. Clicking "buy" on a shown card appends that product to the cart (duplicates
  allowed), raises the cart count by one and changes neither the result nor the page.
\<close>

theorem buy_appends:
  assumes "k < length (cards (view_of s))"
  shows "cart (step sh s (BuyClick k)) = cart s @ [buy_product (cards (view_of s) ! k)] \<and>
         cart_count (step sh s (BuyClick k)) = cart_count s + 1 \<and>
         filtered (step sh s (BuyClick k)) = filtered s \<and>
         current_page (step sh s (BuyClick k)) = current_page s"
  using assms by (simp add: view_of_def render_products_def Let_def add_to_cart_def cart_count_def)

lemma buy_appends_witness:
  "cart_count (step rev (init_page rev (\<lambda>_. 0) blank_inputs) (BuyClick 0)) = 1"
proof -
  have "length (cards (view_of (init_page rev (\<lambda>_. 0) blank_inputs))) =
        length (page_slice (current_page (init_page rev (\<lambda>_. 0) blank_inputs))
          (filtered (init_page rev (\<lambda>_. 0) blank_inputs)))"
    by (simp add: view_of_def render_products_def Let_def)
  moreover have "0 < length (page_slice (current_page (init_page rev (\<lambda>_. 0) blank_inputs))
          (filtered (init_page rev (\<lambda>_. 0) blank_inputs)))"
    by code_simp
  ultimately have k: "0 < length (cards (view_of (init_page rev (\<lambda>_. 0) blank_inputs)))"
    by simp
  have c: "cart_count (init_page rev (\<lambda>_. 0) blank_inputs) = 0"
    by code_simp
  show ?thesis using buy_appends [OF k, of rev] c by simp
qed

text \<open>
  Claim C22. "Ver mais / Ver menos" rebuilds every brand and category checkbox
  unchecked but does not rerun the pipeline: the selection disappears from the controls
  while the result still reflects it.
\<close>

theorem show_more_drops_selection:
  "checked_values (brand_boxes (controls (step sh s ShowMoreBrands))) = [] \<and>
   checked_values (cat_boxes (controls (step sh s ShowMoreBrands))) = [] \<and>
   filtered (step sh s ShowMoreBrands) = filtered s"
  by (simp add: Let_def render_filter_checkboxes_def checked_values_def split: prod.split)

lemma show_more_drops_selection_witness:
  "checked_values (brand_boxes (controls (step rev (init_page rev (\<lambda>_. 0) blank_inputs)
     ShowMoreBrands))) = []"
  using show_more_drops_selection [of rev "init_page rev (\<lambda>_. 0) blank_inputs"] by simp

end
