(* ===== verification/Controls.thy ===== *)
theory Controls
  imports Page
begin

text \<open>
  The form controls as the listeners leave them. \<open>ui_inv\<close> ties the brand and category
  checkboxes to the derived sets (\<open>renderFilterCheckboxes\<close> is their only writer, the
  checkbox listeners only flip the checked flags) and the suggestion list to the
  catalogue (\<open>renderSuggestions\<close> is its only writer). It holds in every reachable
  state; the lemmas derive which brands can be selected while the list is collapsed,
  what clicking a suggestion does, and what the debounce timer does when it fires. The
  last section reads typed price boxes through \<open>parseFloat\<close>.
\<close>

definition ui_inv :: "page_state \<Rightarrow> bool" where
  "ui_inv s \<longleftrightarrow>
     map fst (brand_boxes (controls s)) =
       take (if brands_expanded (controls s) then length (brands_set s) else brand_limit)
         (sort (brands_set s)) \<and>
     map fst (cat_boxes (controls s)) = sort (categories_set s) \<and>
     (\<exists>q. sugg_items s = snd (render_suggestions (products s) q))"

lemma step_keeps_data:
  "products (step sh s e) = products s \<and> brands_set (step sh s e) = brands_set s \<and>
   categories_set (step sh s e) = categories_set s"
  by (cases e) (simp_all add: apply_filters_and_render_def Let_def add_to_cart_def
      split: option.split prod.split)

lemma map_fst_set_box [simp]: "map fst (set_box bs k b) = map fst bs"
proof (cases "k < length bs")
  case True
  then have "map fst (set_box bs k b) = (map fst bs)[k := map fst bs ! k]"
    by (simp add: set_box_def map_update)
  also have "\<dots> = map fst bs" by (rule list_update_id)
  finally show ?thesis .
next
  case False
  then show ?thesis by (simp add: set_box_def list_update_beyond)
qed

lemma render_boxes_fst:
  "map fst (fst (render_filter_checkboxes bs cs e)) = take (if e then length bs else brand_limit) (sort bs)"
  "map fst (fst (snd (render_filter_checkboxes bs cs e))) = sort cs"
  by (simp_all add: render_filter_checkboxes_def Let_def comp_def)

lemma render_boxes_eq:
  assumes "render_filter_checkboxes bs cs e = (bb, cb, l)"
  shows "map fst bb = take (if e then length bs else brand_limit) (sort bs) \<and> map fst cb = sort cs"
  using render_boxes_fst [of bs cs e] assms by simp

lemma init_ui_inv: "ui_inv (init_page sh now i0)"
proof -
  have "sugg_items (init_page sh now i0) = snd (render_suggestions (products (init_page sh now i0)) [])"
    by (simp add: init_page_def apply_filters_and_render_def render_suggestions_def Let_def
        split: prod.split)
  then show ?thesis
    by (auto simp: ui_inv_def init_page_def apply_filters_and_render_def Let_def
        dest: render_boxes_eq split: prod.split)
qed

lemma step_ui_inv:
  assumes "ui_inv s"
  shows "ui_inv (step sh s e)"
proof (cases e)
  case DebounceFire
  show ?thesis
  proof (cases "pending_query s")
    case None
    then show ?thesis using assms DebounceFire by simp
  next
    case (Some q)
    have sg: "sugg_items (step sh s e) = snd (render_suggestions (products s) q)"
      and c: "controls (step sh s e) = controls s"
      using Some DebounceFire
      by (simp_all add: apply_filters_and_render_def Let_def split: prod.split)
    then show ?thesis using assms step_keeps_data [of sh s e]
      by (auto simp: ui_inv_def c)
  qed
next
  case ShowMoreBrands
  then show ?thesis using assms
    by (auto simp: ui_inv_def Let_def dest: render_boxes_eq split: prod.split)
qed (use assms in \<open>simp_all add: ui_inv_def apply_filters_and_render_def Let_def add_to_cart_def\<close>)

lemma reachable_ui_inv: "reachable s \<Longrightarrow> ui_inv s"
  by (induction rule: reachable.induct) (simp_all add: init_ui_inv step_ui_inv)

lemma sugg_items_titles:
  assumes "ui_inv s"
  shows "length (sugg_items s) \<le> suggestion_limit \<and> set (sugg_items s) \<subseteq> title ` set (products s)"
proof -
  obtain q where "sugg_items s = snd (render_suggestions (products s) q)"
    using assms by (auto simp: ui_inv_def)
  then show ?thesis
    by (auto simp: render_suggestions_def Let_def dest: in_set_takeD)
qed

lemma seed_brands_sorted:
  "sort (fst (populate_filter_sets (create_sample_products now))) =
     [''Bosch'', ''Fram'', ''Gates'', ''Honda'', ''Monroe'', ''Moura'', ''NGK'', ''Shell'']"
  by (simp add: populate_filter_sets_eq create_sample_products_def js_set_add_def)

lemma reachable_seed_brands:
  assumes "reachable s"
  shows "sort (brands_set s) =
           [''Bosch'', ''Fram'', ''Gates'', ''Honda'', ''Monroe'', ''Moura'', ''NGK'', ''Shell'']"
proof -
  obtain now where "products s = create_sample_products now"
      "(brands_set s, categories_set s) = populate_filter_sets (products s)"
    using reachable_inv [OF assms] unfolding page_inv_def by blast
  then have "brands_set s = fst (populate_filter_sets (create_sample_products now))"
    by (metis fst_conv)
  then show ?thesis by (simp add: seed_brands_sorted)
qed

lemma selected_brands_boxes:
  "set (selected_brands (read_filters i)) \<subseteq> set (map fst (brand_boxes i))"
  by (auto simp: read_filters_def checked_values_def)

text \<open>
  Claim C28. While the brand list is collapsed, only the first five brands in
  alphabetical order can be selected: Moura, NGK and Shell have no checkbox, and
  collapsing the list after selecting one of them rebuilds every box unchecked.
\<close>

theorem collapsed_brand_selection:
  assumes "reachable s" "\<not> brands_expanded (controls s)"
  shows "set (selected_brands (read_filters (controls s))) \<subseteq>
           {''Bosch'', ''Fram'', ''Gates'', ''Honda'', ''Monroe''}"
proof -
  have "map fst (brand_boxes (controls s)) = [''Bosch'', ''Fram'', ''Gates'', ''Honda'', ''Monroe'']"
    using reachable_ui_inv [OF assms(1)] reachable_seed_brands [OF assms(1)] assms(2)
    by (simp add: ui_inv_def brand_limit_def)
  then show ?thesis using selected_brands_boxes [of "controls s"] by simp
qed

lemma collapsed_brand_selection_witness:
  "set (selected_brands (read_filters (controls
     (step rev (init_page rev (\<lambda>_. 0) blank_inputs) (BrandChange 0 True))))) \<subseteq>
   {''Bosch'', ''Fram'', ''Gates'', ''Honda'', ''Monroe''}"
proof -
  have r: "reachable (step rev (init_page rev (\<lambda>_. 0) blank_inputs) (BrandChange 0 True))"
    by (rule reachable.step [OF reachable_example perm_oracle_rev])
  have c: "\<not> brands_expanded (controls (step rev (init_page rev (\<lambda>_. 0) blank_inputs) (BrandChange 0 True)))"
    by code_simp
  show ?thesis by (rule collapsed_brand_selection [OF r c])
qed

text \<open>
  Claim C29. Clicking a shown suggestion puts the title of a catalogue product into the
  search box; that product meets the text clause of the new query (the lower-cased,
  trimmed title occurs in its searchable text), so it is in the new result exactly when
  it meets the other filters.
\<close>

theorem suggestion_click_matches:
  assumes "reachable s" "perm_oracle sh" "k < length (sugg_items s)"
  shows "\<exists>p \<in> set (products s). title p = sugg_items s ! k \<and>
           search_value (controls (step sh s (SuggestionClick k))) = title p \<and>
           sublist (query (read_filters (controls (step sh s (SuggestionClick k))))) (haystack p) \<and>
           (p \<in> set (filtered (step sh s (SuggestionClick k))) \<longleftrightarrow>
              passes (read_filters (controls (step sh s (SuggestionClick k)))) p)"
proof -
  let ?t = "step sh s (SuggestionClick k)"
  have "sugg_items s ! k \<in> title ` set (products s)"
    using sugg_items_titles [OF reachable_ui_inv [OF assms(1)]] nth_mem [OF assms(3)] by blast
  then obtain p where p: "p \<in> set (products s)" "title p = sugg_items s ! k" by auto
  have sv: "search_value (controls ?t) = title p"
    using assms(3) p by (simp add: apply_filters_and_render_def)
  have sub: "sublist (query (read_filters (controls ?t))) (haystack p)"
    using sv js_trim_lower_sublist [of "title p"] by (simp add: read_filters_def haystack_def)
  have "filtered ?t = apply_filters sh (controls ?t) (products s)"
    using assms(3) by (simp add: apply_filters_and_render_def)
  then have "set (filtered ?t) = set (filter_products (read_filters (controls ?t)) (products s))"
    using mset_apply_filters [OF assms(2)] by (metis set_mset_mset)
  then have "p \<in> set (filtered ?t) \<longleftrightarrow> passes (read_filters (controls ?t)) p"
    using p(1) by (simp add: filter_products_def)
  with p sv sub show ?thesis by blast
qed

lemma suggestion_click_matches_witness:
  "let s = step rev (step rev (init_page rev (\<lambda>_. 0) blank_inputs) (SearchInput ''bosch'')) DebounceFire
   in \<exists>p \<in> set (products s). title p = sugg_items s ! 0 \<and>
        search_value (controls (step rev s (SuggestionClick 0))) = title p"
proof -
  let ?s = "step rev (step rev (init_page rev (\<lambda>_. 0) blank_inputs) (SearchInput ''bosch'')) DebounceFire"
  have r: "reachable ?s"
    by (intro reachable.step reachable_example perm_oracle_rev)
  have k: "0 < length (sugg_items ?s)" by code_simp
  show ?thesis using suggestion_click_matches [OF r perm_oracle_rev k] by (auto simp: Let_def)
qed

text \<open>
  Claim C30. The debounced search always takes effect: after a keystroke, once the timer
  fires, nothing is pending, the suggestions are those of the typed text, the page is the
  first and the result is the pipeline applied to the controls holding that text.
\<close>

theorem debounce_takes_effect:
  "let t = run sh s [SearchInput v, DebounceFire]
   in pending_query t = None \<and> search_value (controls t) = v \<and> current_page t = 1 \<and>
      sugg_items t = snd (render_suggestions (products s) (js_to_lower (js_trim v))) \<and>
      filtered t = apply_filters sh ((controls s)\<lparr>search_value := v\<rparr>) (products s)"
  by (simp add: apply_filters_and_render_def Let_def split: prod.split)

text \<open>
  Claim C31. In every reachable state the suggestion list holds at most six entries, each
  the title of a catalogue product.
\<close>

theorem reachable_suggestions_bounded:
  "reachable s \<Longrightarrow> length (sugg_items s) \<le> 6 \<and> set (sugg_items s) \<subseteq> title ` set (products s)"
  using sugg_items_titles [OF reachable_ui_inv] by (simp add: suggestion_limit_def)

lemma reachable_suggestions_bounded_witness:
  "length (sugg_items (init_page rev (\<lambda>_. 0) blank_inputs)) \<le> 6"
  using reachable_suggestions_bounded [OF reachable_example] by simp

subsection \<open>The cards a reachable page shows\<close>

lemma seed_product_bounds:
  "p \<in> set (create_sample_products now) \<Longrightarrow> 1 \<le> parcels p \<and> 0 \<le> price p \<and> price p < 10 ^ 21"
  by (auto simp: create_sample_products_def)

lemma to_fixed2_some: "\<bar>x\<bar> < 10 ^ 21 \<Longrightarrow> \<exists>t. to_fixed2 x = Some t"
  by (simp add: to_fixed2_def Let_def)

lemma view_cards: "cards (view_of s) = map render_card (page_slice (current_page s) (filtered s))"
  by (simp add: view_of_def render_products_def Let_def)

lemma reachable_filtered_products:
  assumes "reachable s" "p \<in> set (filtered s)"
  shows "p \<in> set (products s)"
proof -
  have "page_inv s" by (rule reachable_inv [OF assms(1)])
  then obtain fs where m: "mset (filtered s) = mset (filter_products fs (products s))"
    unfolding page_inv_def by (elim conjE exE)
  show ?thesis
    using set_mset_eq_filter [OF m [unfolded filter_products_def] assms(2)] by (rule conjunct1)
qed

text \<open>
  Claim C32. Every card of a reachable page is the card of a catalogue product, and both
  of its number texts are printed by \<open>toFixed(2)\<close> of a finite value: the installment is
  the real quotient of price and parcels, never the "Infinity" of a zero divisor.
\<close>

theorem reachable_cards_finite:
  assumes "reachable s" "c \<in> set (cards (view_of s))"
  shows "buy_product c \<in> set (products s) \<and> c = render_card (buy_product c) \<and>
         (\<exists>t. price_text c = Some t) \<and> (\<exists>t. installments_text c = Some t) \<and>
         installment_amount (buy_product c) =
           to_fixed2 (price (buy_product c) / of_int (parcels (buy_product c)))"
proof -
  obtain p where p: "p \<in> set (page_slice (current_page s) (filtered s))" "c = render_card p"
    using assms(2) by (auto simp: view_cards)
  have ps: "p \<in> set (products s)"
    using reachable_filtered_products [OF assms(1) set_page_slice [OF p(1)]] .
  have "page_inv s" by (rule reachable_inv [OF assms(1)])
  then obtain now where "products s = create_sample_products now"
    unfolding page_inv_def by (elim conjE exE)
  with ps have b: "1 \<le> parcels p" "0 \<le> price p" "price p < 10 ^ 21"
    using seed_product_bounds by auto
  note ia = installment_amount_pos [OF b]
  have "\<bar>price p\<bar> < 10 ^ 21" using b(2,3) by simp
  then obtain t where "to_fixed2 (price p) = Some t" using to_fixed2_some by blast
  moreover obtain u where "to_fixed2 (price p / of_int (parcels p)) = Some u"
    using to_fixed2_some [OF ia(2)] by blast
  ultimately show ?thesis using p(2) ps ia(1) by (simp add: render_card_def)
qed

lemma reachable_cards_finite_witness:
  "\<exists>t. installments_text (hd (cards (view_of (init_page rev (\<lambda>_. 0) blank_inputs)))) = Some t"
proof -
  let ?s = "init_page rev (\<lambda>_. 0) blank_inputs"
  have "page_slice (current_page ?s) (filtered ?s) \<noteq> []" by code_simp
  then have "cards (view_of ?s) \<noteq> []" by (simp add: view_cards)
  then have "hd (cards (view_of ?s)) \<in> set (cards (view_of ?s))" by (rule hd_in_set)
  from reachable_cards_finite [OF reachable_example this] show ?thesis by blast
qed

subsection \<open>Typed price inputs\<close>

text \<open>
  Claim C34. A price box holding digits followed by text that cannot continue a number
  (such as "150abc") is read as the number the digits spell: the minimum becomes that
  number and the maximum too, unless it is 0, which \<open>||\<close> turns into no bound. The text
  is not rejected as non-numeric.
\<close>

theorem typed_price_prefix:
  assumes "ds \<noteq> []" "list_all is_digit ds"
    "r = [] \<or> \<not> is_digit (hd r) \<and> hd r \<notin> {CHR ''.'', CHR ''e'', CHR ''E''}"
  shows "min_p (read_filters (i\<lparr>price_min_value := ds @ r\<rparr>)) = JNum (of_nat (digits_value ds 0)) \<and>
         max_p (read_filters (i\<lparr>price_max_value := ds @ r\<rparr>)) =
           (if digits_value ds 0 = 0 then JInf else JNum (of_nat (digits_value ds 0)))"
  using parse_float_digits_prefix [OF assms] by (simp add: read_filters_def)

lemma typed_price_prefix_witness:
  "min_p (read_filters (blank_inputs\<lparr>price_min_value := ''150abc''\<rparr>)) = JNum 150 \<and>
   max_p (read_filters (blank_inputs\<lparr>price_max_value := ''150abc''\<rparr>)) = JNum 150"
  using typed_price_prefix [of "''150''" "''abc''" blank_inputs]
  by (simp add: is_digit_def)

end
