(* ===== verification/Effects.thy ===== *)
theory Effects
  imports Page
begin

text \<open>
  The actions of the page on the world outside its state, after the traces of observable
  events in protocol models: the \<open>alert\<close> that \<open>addToCart\<close> raises and the
  \<open>window.open\<close> of the WhatsApp button. \<open>effects\<close> gives the actions of one event in
  the state it arrives in, \<open>run_actions\<close> the action trace of a run. Neither changes the
  state: \<open>step\<close> is the same whatever the actions.
\<close>

datatype action = Alert js_string | OpenWindow js_string js_string

definition whatsapp_url :: js_string where
  "whatsapp_url =
     ''https://wa.me/5511999999999?text=Ol%C3%A1%20Pe%C3%A7aAq%2C%20gostaria%20de%20ajuda%20com%20uma%20pe%C3%A7a''"

definition cart_alert :: "product \<Rightarrow> js_string" where
  "cart_alert p = ''Produto '' @ [CHR 0x22] @ title p @ [CHR 0x22] @ '' adicionado ao carrinho!''"

fun effects :: "page_state \<Rightarrow> event \<Rightarrow> action list" where
  "effects s WhatsAppClick = [OpenWindow whatsapp_url ''_blank'']"
| "effects s (BuyClick k) =
     (let slice = page_slice (current_page s) (filtered s)
      in if k < length slice then [Alert (cart_alert (slice ! k))] else [])"
| "effects s _ = []"

fun run_actions :: "shuffle \<Rightarrow> page_state \<Rightarrow> event list \<Rightarrow> action list" where
  "run_actions sh s [] = []"
| "run_actions sh s (e # es) = effects s e @ run_actions sh (step sh s e) es"

fun alerts :: "action list \<Rightarrow> js_string list" where
  "alerts [] = []"
| "alerts (Alert m # as) = m # alerts as"
| "alerts (OpenWindow u t # as) = alerts as"

fun windows :: "action list \<Rightarrow> (js_string \<times> js_string) list" where
  "windows [] = []"
| "windows (Alert m # as) = windows as"
| "windows (OpenWindow u t # as) = (u, t) # windows as"

lemma alerts_append [simp]: "alerts (xs @ ys) = alerts xs @ alerts ys"
  by (induction xs rule: alerts.induct) auto

lemma windows_append [simp]: "windows (xs @ ys) = windows xs @ windows ys"
  by (induction xs rule: windows.induct) auto

text \<open>One step: the cart grows by the products whose alerts the step raises.\<close>

lemma step_cart_alerts:
  "\<exists>ys. cart (step sh s e) = cart s @ ys \<and> alerts (effects s e) = map cart_alert ys \<and>
        windows (effects s e) = (if e = WhatsAppClick then [(whatsapp_url, ''_blank'')] else [])"
  by (cases e) (auto simp: apply_filters_and_render_def add_to_cart_def Let_def
      split: option.split prod.split)

lemma run_cart_extends: "\<exists>zs. cart (run sh s es) = cart s @ zs"
proof (induction es arbitrary: s)
  case Nil
  then show ?case by simp
next
  case (Cons e es)
  obtain ys where "cart (step sh s e) = cart s @ ys" using step_cart_alerts by blast
  moreover obtain zs where "cart (run sh (step sh s e) es) = cart (step sh s e) @ zs"
    using Cons.IH by blast
  ultimately show ?case by auto
qed

text \<open>
  Claim C33. Over any run, the alerts are exactly one "Produto ... adicionado ao carrinho!"
  per product the run adds to the cart, in the order they are added, and the only other
  actions are one \<open>window.open\<close> of the fixed WhatsApp link per click on its button.
\<close>

theorem actions_match_cart:
  "alerts (run_actions sh s es) = map cart_alert (drop (length (cart s)) (cart (run sh s es))) \<and>
   windows (run_actions sh s es) =
     replicate (length (filter (\<lambda>e. e = WhatsAppClick) es)) (whatsapp_url, ''_blank'')"
proof (induction es arbitrary: s)
  case Nil
  then show ?case by simp
next
  case (Cons e es)
  obtain ys where y: "cart (step sh s e) = cart s @ ys" "alerts (effects s e) = map cart_alert ys"
    "windows (effects s e) = (if e = WhatsAppClick then [(whatsapp_url, ''_blank'')] else [])"
    using step_cart_alerts by blast
  obtain zs where z: "cart (run sh (step sh s e) es) = cart (step sh s e) @ zs"
    using run_cart_extends by blast
  show ?case using Cons.IH [of "step sh s e"] y z by simp
qed

lemma actions_match_cart_witness:
  "alerts (run_actions rev (init_page rev (\<lambda>_. 0) blank_inputs) [BuyClick 0, WhatsAppClick]) =
     [''Produto '' @ [CHR 0x22] @ ''Filtro de Ar Honda Civic 2010'' @ [CHR 0x22] @
      '' adicionado ao carrinho!'']"
proof -
  have "drop 0 (cart (run rev (init_page rev (\<lambda>_. 0) blank_inputs) [BuyClick 0, WhatsAppClick])) =
        [hd seed_catalog]"
    by code_simp
  moreover have "cart (init_page rev (\<lambda>_. 0) blank_inputs) = []" by code_simp
  ultimately show ?thesis
    using actions_match_cart [of rev "init_page rev (\<lambda>_. 0) blank_inputs" "[BuyClick 0, WhatsAppClick]"]
    by (simp add: cart_alert_def create_sample_products_def)
qed

end
