(* ===== verification/Shuffle.thy ===== *)
theory Shuffle
  imports Query
begin

text \<open>
  The relevance sort of \<open>applyFiltersAndRender\<close>, \<open>filtered.sort(() => 0.5 - Math.random())\<close>,
  run with its comparator. The engine's sort is modelled by the same insertion as
  \<open>js_sort\<close>; each comparator call reads the next value of \<open>Math.random()\<close>, a number in
  \<open>[0, 1)\<close>, from the list of readings (an exhausted list reads 0). The results over all
  readings are exactly the permutations of the input, which is what the \<open>shuffle\<close>
  parameter of \<open>Query\<close> ranges over when it satisfies \<open>perm_oracle\<close>.
\<close>

type_synonym randoms = "rat list"
  \<comment> \<open>the values the successive calls of \<open>Math.random()\<close> return\<close>

definition next_random :: "randoms \<Rightarrow> rat \<times> randoms" where
  "next_random rs = (case rs of [] \<Rightarrow> (0, []) | r # rs' \<Rightarrow> (r, rs'))"

definition relevance_cmp :: "rat \<Rightarrow> rat" where
  "relevance_cmp r = 1 / 2 - r"

fun rand_insert :: "randoms \<Rightarrow> 'a \<Rightarrow> 'a list \<Rightarrow> 'a list \<times> randoms" where
  "rand_insert rs x [] = ([x], rs)"
| "rand_insert rs x (y # ys) =
     (let (r, rs') = next_random rs
      in if relevance_cmp r \<le> 0 then (x # y # ys, rs')
         else let (zs, rs'') = rand_insert rs' x ys in (y # zs, rs''))"

fun rand_sort :: "randoms \<Rightarrow> 'a list \<Rightarrow> 'a list \<times> randoms" where
  "rand_sort rs [] = ([], rs)"
| "rand_sort rs (x # xs) = (let (ys, rs') = rand_sort rs xs in rand_insert rs' x ys)"

definition valid_randoms :: "randoms \<Rightarrow> bool" where
  "valid_randoms rs \<longleftrightarrow> list_all (\<lambda>r. 0 \<le> r \<and> r < 1) rs"

subsection \<open>Soundness: the result is a permutation\<close>

lemma mset_rand_insert: "mset (fst (rand_insert rs x ys)) = add_mset x (mset ys)"
  by (induction rs x ys rule: rand_insert.induct)
     (auto simp: next_random_def split: list.split prod.split)

lemma mset_rand_sort: "mset (fst (rand_sort rs xs)) = mset xs"
  by (induction rs xs rule: rand_sort.induct) (auto simp: mset_rand_insert split: prod.split)

subsection \<open>Completeness: every permutation arises\<close>

text \<open>
  Readings below \<open>1/2\<close> make the comparator positive, so the inserted element moves on;
  the reading \<open>1/2\<close> makes it 0, so the element stops.
\<close>

lemma rand_insert_at:
  "rand_insert (replicate (length us) 0 @ (if vs = [] then [] else [1 / 2]) @ rest) x (us @ vs) =
     (us @ x # vs, rest)"
proof (induction us)
  case Nil
  then show ?case
    by (cases vs) (simp_all add: next_random_def relevance_cmp_def)
next
  case (Cons u us)
  then show ?case by (simp add: next_random_def relevance_cmp_def)
qed

lemma rand_sort_complete:
  "mset ys = mset xs \<Longrightarrow>
     \<exists>rs. valid_randoms rs \<and> (\<forall>rest. rand_sort (rs @ rest) xs = (ys, rest))"
proof (induction xs arbitrary: ys)
  case Nil
  then show ?case by (simp add: valid_randoms_def)
next
  case (Cons x xs)
  then have "x \<in> set ys" by (metis list.set_intros(1) set_mset_mset)
  then obtain us vs where ys: "ys = us @ x # vs" by (meson split_list)
  then have "mset (us @ vs) = mset xs" using Cons.prems by simp
  then obtain rs where rs: "valid_randoms rs" "\<forall>rest. rand_sort (rs @ rest) xs = (us @ vs, rest)"
    using Cons.IH by blast
  let ?rs2 = "replicate (length us) 0 @ (if vs = [] then [] else [1 / 2 :: rat])"
  have "valid_randoms (rs @ ?rs2)" using rs(1) by (auto simp: valid_randoms_def list_all_iff in_set_replicate)
  moreover have "rand_sort ((rs @ ?rs2) @ rest) (x # xs) = (ys, rest)" for rest
    using rs(2) [rule_format, of "?rs2 @ rest"] rand_insert_at [of us vs rest x] ys by simp
  ultimately show ?case by blast
qed

subsection \<open>The outcomes of the two models\<close>

lemma rand_sort_outcomes:
  "{fst (rand_sort rs xs) | rs. valid_randoms rs} = {ys. mset ys = mset xs}"
proof (intro equalityI subsetI)
  fix ys assume "ys \<in> {fst (rand_sort rs xs) | rs. valid_randoms rs}"
  then obtain rs where "ys = fst (rand_sort rs xs)" by blast
  then show "ys \<in> {ys. mset ys = mset xs}" by (simp add: mset_rand_sort)
next
  fix ys assume "ys \<in> {ys. mset ys = mset xs}"
  then have "mset ys = mset xs" by simp
  then obtain rs where v: "valid_randoms rs" and "\<forall>rest. rand_sort (rs @ rest) xs = (ys, rest)"
    by (blast dest: rand_sort_complete)
  then have "ys = fst (rand_sort rs xs)" by (metis append_Nil2 fst_conv)
  with v show "ys \<in> {fst (rand_sort rs xs) | rs. valid_randoms rs}" by blast
qed

lemma sort_mode_relevance: "sort_mode_of ''relevance'' = Relevance"
  by (simp add: sort_mode_of_def)

lemma read_filters_sort_value: "read_filters (i\<lparr>sort_value := v\<rparr>) = read_filters i"
  by (simp add: read_filters_def)

lemma apply_filters_relevance:
  "apply_filters sh (i\<lparr>sort_value := ''relevance''\<rparr>) ps = sh (filter_products (read_filters i) ps)"
  by (simp add: apply_filters_def read_filters_sort_value sort_mode_relevance apply_sort.simps)

lemma oracle_outcomes: "{sh xs | sh. perm_oracle sh} = {ys. mset ys = mset xs}"
proof (intro equalityI subsetI)
  fix ys assume "ys \<in> {sh xs | sh. perm_oracle sh}"
  then obtain sh where "ys = sh xs" "perm_oracle sh" by blast
  then show "ys \<in> {ys. mset ys = mset xs}" by (simp add: perm_oracle_def)
next
  fix ys assume "ys \<in> {ys. mset ys = mset xs}"
  then have m: "mset ys = mset xs" by simp
  define sh :: shuffle where "sh zs = (if zs = xs then ys else zs)" for zs
  have "perm_oracle sh" using m by (simp add: perm_oracle_def sh_def)
  moreover have "ys = sh xs" by (simp add: sh_def)
  ultimately show "ys \<in> {sh xs | sh. perm_oracle sh}" by blast
qed

end
