(* ===== verification/Spec2Isabelle.thy ===== *)
theory Spec2Isabelle
  imports Controls Effects Shuffle
begin

text \<open>
  \<^bold>\<open>A verified model of the PecaAq catalogue page\<close>

  The program is one browser script, src/Produtos/scripit.js. Module-level variables hold
  the catalogue (\<open>products\<close>), the current result (\<open>filtered\<close>), the page number
  (\<open>currentPage\<close>) and the distinct brands and categories (\<open>brandsSet\<close>,
  \<open>categoriesSet\<close>). One \<open>DOMContentLoaded\<close> handler looks up the page's elements,
  runs the start-up sequence (\<open>createSampleProducts\<close>, \<open>populateFilterSets\<close>,
  \<open>renderFilterCheckboxes\<close>, \<open>applyFiltersAndRender\<close>) and installs the event
  listeners; it also owns the cart and the search debounce timer. Every filter or sort
  input calls \<open>applyFiltersAndRender\<close>, which rereads all controls, filters, sorts,
  resets the page and calls \<open>renderProducts\<close>; the page buttons only re-slice.

  \<^bold>\<open>Theories.\<close>
  \<^item> \<open>Prelude\<close>: the theorem collections (\<open>model_defs\<close>: the definitions unfolded to
    evaluate a concrete page; \<open>inv_simps\<close>) and list lemmas on chunks and filters.
  \<^item> \<open>Js_Runtime\<close>: the runtime functions the script calls, after their ECMAScript
    definitions: \<open>trim\<close> (\<open>js_trim\<close>), \<open>toLowerCase\<close> (\<open>js_to_lower\<close>), string
    \<open>includes\<close> (\<open>js_includes\<close>, proved equal to \<open>sublist\<close>), \<open>parseFloat\<close>
    (\<open>parse_float\<close>, on the number type \<open>jsnum\<close>), \<open>x || d\<close> (\<open>js_or\<close>), the
    comparisons with a possibly infinite bound, \<open>slice\<close> (\<open>js_slice\<close>), \<open>Set.add\<close>
    (\<open>js_set_add\<close>) and \<open>sort\<close> with a comparator (\<open>js_sort\<close>, proved equal to the
    library's stable \<open>sort_key\<close> for the comparators the script uses).
  \<^item> \<open>Js_Number\<close>: the number printing of the runtime: integer \<open>toString\<close>
    (\<open>int_to_string\<close>, over \<open>nat_digits\<close>), \<open>toFixed(2)\<close> (\<open>to_fixed2\<close>, round
    half-up on the magnitude), the division \<open>price / parcels\<close> (\<open>js_divide\<close>, with its
    infinities and NaN) and \<open>replace\<close> of the first occurrence (\<open>js_replace_first\<close>).
    Its lemmas read a printed amount back through the \<open>parseFloat\<close> of \<open>Js_Runtime\<close>
    (within half a cent of the printed value) and give the digit shape of the text.
  \<^item> \<open>Catalog\<close>: the product record, \<open>createSampleProducts\<close>
    (\<open>create_sample_products\<close>, a function of the clock), \<open>populateFilterSets\<close>
    and \<open>renderFilterCheckboxes\<close>; their lemmas show the checkboxes list the sorted
    distinct brands (five unless expanded).
  \<^item> \<open>Query\<close>: the controls (\<open>inputs\<close>), the filter state \<open>applyFiltersAndRender\<close>
    reads from them (\<open>read_filters\<close>), the filter (\<open>passes\<close>), the sort dispatch
    (\<open>sort_mode_of\<close>, \<open>apply_sort\<close>), the recomputation (\<open>apply_filters\<close>) and
    \<open>renderSuggestions\<close>. The lemmas refine the early-return filter to the spec's
    five-clause conjunction \<open>spec_passes\<close>, the sorts to stable sorts, show that the
    searched text (\<open>haystack\<close>) covers the four fields, and state the suggestion list
    and the price defaults.
  \<^item> \<open>Card\<close>: the product card of \<open>renderProducts\<close> (\<open>render_card\<close>): image, alt
    text, title, price text, installment text and the product the buy listener captures.
    Its lemmas bound the displayed installment against \<open>price / parcels\<close>, give the
    shape of the price text and show the zero-parcel display.
  \<^item> \<open>Pagination\<close>: \<open>PRODUCTS_PER_PAGE\<close>, \<open>totalPages\<close> (\<open>total_pages\<close>, with the
    ceiling as the code computes it), the slice of \<open>renderProducts\<close>, its summary
    (\<open>render_products\<close>, whose cards are \<open>render_card\<close> of the slice) and the
    navigation guards; the pages partition the result.
  \<^item> \<open>Page\<close>: the state machine. \<open>page_state\<close> holds the module variables, the cart,
    the pending debounce argument and the DOM state the listeners read and write;
    \<open>step\<close> has one equation per listener, \<open>init_page\<close> is the start-up sequence,
    \<open>reachable\<close> the states any run reaches. The invariant \<open>page_inv\<close> (page within
    bounds, result a permutation of a filter of the seed, cart inside the catalogue,
    derived sets current) holds in every reachable state, by rule induction.
  \<^item> \<open>Controls\<close>: a second invariant of the reachable states, \<open>ui_inv\<close>: the brand and
    category checkboxes list the sorted derived sets (the brands cut at five while
    collapsed) and the suggestion list is a result of \<open>renderSuggestions\<close>. Its lemmas
    show which brands can be selected while the list is collapsed, what a suggestion
    click puts in the search box and finds, that a fired debounce timer always applies the
    last keystroke, and that the suggestion list stays within six catalogue titles.
    With the seed bounds of \<open>Catalog\<close> and the card lemmas of \<open>Card\<close> they show that
    every card a reachable page shows prints a finite price and installment. A last group
    reads typed price boxes: \<open>parseFloat\<close> keeps the numeric prefix of "150abc".
  \<^item> \<open>Shuffle\<close>: the relevance sort run with its comparator
    \<open>() => 0.5 - Math.random()\<close>: \<open>rand_sort\<close> is the insertion of \<open>js_sort\<close> with
    each comparator call reading the next value of \<open>Math.random()\<close> from a list of
    readings in \<open>[0, 1)\<close> (\<open>valid_randoms\<close>). Its lemmas show that the outcomes over
    all readings are exactly the permutations of the input, the outcomes of the
    \<open>shuffle\<close> parameter under \<open>perm_oracle\<close>; this theory's refinement lemma lifts
    this to the page.
  \<^item> \<open>Effects\<close>: the actions on the outside world, after the event traces of protocol
    models: \<open>effects\<close> gives the \<open>alert\<close> of \<open>addToCart\<close> and the \<open>window.open\<close> of
    the WhatsApp button (\<open>whatsapp_url\<close>) for one event, \<open>run_actions\<close> the trace of a
    run; its lemma matches the alerts one to one with the products added to the cart.
  \<^item> This theory: the properties that span components: the dispatch of the sort
    select through \<open>step\<close>, the refinement of the page's relevance sort to its
    comparator (\<open>Shuffle\<close>), and the recency order under a clock that reads close values.

  \<^bold>\<open>Modelling choices.\<close> JavaScript strings are lists of their UTF-8 bytes; the case
  mapping covers ASCII and the Latin-1 letters, which is all the seed data and any
  Portuguese query use. \<open>trim\<close> (\<open>js_trim\<close>) and the whitespace that \<open>parseFloat\<close>
  skips are the ASCII white space only (tab, line feed, vertical tab, form feed, carriage
  return, space); ECMAScript also strips the no-break space, the byte order mark, the line
  and paragraph separators and the other Unicode space separators, so a search or price box
  that starts or ends with one of those is read differently by the model. Numbers: prices are exact rationals (the decimal literals of
  the seed), \<open>jsnum\<close> adds the infinities and NaN that \<open>parseFloat\<close> and \<open>||\<close>
  produce; \<open>parseFloat\<close> reads the exact rational, with neither overflow to Infinity
  ("1e400") nor underflow to zero ("1e-400"), and double rounding is not modelled, so \<open>toFixed(2)\<close> rounds the exact value
  half-up (a binary double can lie just below a half-cent tie and round down instead). \<open>Date.now()\<close> is a clock argument read
  once per product. \<open>Array.prototype.sort\<close> is stable, so with the consistent
  comparators of the price and recency sorts its result is the stable sort, computed by
  insertion; the \<open>relevance\<close> comparator is random, so its result is a parameter
  (\<open>shuffle\<close>) constrained only to be a permutation (\<open>perm_oracle\<close>), an abstraction
  that \<open>Shuffle\<close> proves exact for an insertion sort driven by \<open>Math.random()\<close>. The initial
  values of the form controls come from the HTML, which is not under src/: they are a
  parameter of \<open>init_page\<close>. Every loop of the script is a traversal of a finite list
  (\<open>filter\<close>, \<open>forEach\<close>, \<open>slice\<close>, \<open>sort\<close>), so every definition is total:
  all recursion is structural except the digit printing \<open>nat_digits\<close>, which recurses
  on \<open>n div 10\<close> under the measure that \<open>fun\<close> finds; no fuel and no partial
  functions are needed.

  \<^bold>\<open>Over-approximation.\<close> \<open>step\<close> accepts a click on the \<open>k\<close>-th suggestion
  whenever the list has a \<open>k\<close>-th item, also while the list carries the \<open>hidden\<close>
  class: the code only adds the class and leaves the items in place, and the model does not
  track what the user can see. So \<open>reachable\<close> contains runs a browser cannot produce;
  every invariant and safety lemma proved over \<open>reachable\<close> holds a fortiori of the real
  runs, and no lemma relies on such a click being possible.

  \<^bold>\<open>Not modelled.\<close> The DOM element lookup, the markup of the cards and checkboxes
  (their \<open>id\<close> attributes) and the CSS class that hides the suggestion list are output
  with no effect on the state; of the outputs only the actions (\<open>alert\<close>,
  \<open>window.open\<close>) and the rendered data (\<open>view\<close>, \<open>card\<close>) are modelled.
  \<open>toFixed\<close> of a magnitude of \<open>10^21\<close> or more falls back to exponent notation, which is not modelled (the text is \<open>None\<close>); no price reaches it.
  The \<open>InvalidData\<close> loader of the spec has no code to model.

  \<^bold>\<open>Plan.\<close> Done: the catalogue, the query pipeline, pagination, the product cards
  with their number texts, the page state machine with its two invariants, the
  suggestion click, the brand limit, the debounce, the typed price boxes and the output
  actions. Every loop of the script is a bounded list traversal, so no property of the
  termination kind is stated: totality is a consequence of the definitions being
  accepted. The relevance sort is refined to its comparator. Left: double rounding of
  \<open>toFixed\<close> on binary values, and the engine's actual sorting algorithm (TimSort), whose
  comparison sequence differs from insertion for long arrays.
\<close>

abbreviation start_state :: page_state where
  "start_state \<equiv> init_page rev (\<lambda>_. 0) (blank_inputs\<lparr>opportunity_boxes := [False]\<rparr>)"

text \<open>
  Claim C23. The relevance sort refines to its code: the results the page can show after
  choosing "relevance" under any permutation the engine may produce are exactly the
  results of running \<open>sort(() => 0.5 - Math.random())\<close> on the filtered catalogue with
  any readings of \<open>Math.random()\<close> in \<open>[0, 1)\<close>. Both are all the orders of the
  filtered products, so the result is not a function of the state.
\<close>

theorem relevance_refinement:
  "{filtered (step sh s (SortChange ''relevance'')) | sh. perm_oracle sh} =
   {fst (rand_sort rs (filter_products (read_filters (controls s)) (products s))) | rs. valid_randoms rs}"
proof -
  have "filtered (step sh s (SortChange ''relevance'')) =
          apply_filters sh ((controls s)\<lparr>sort_value := ''relevance''\<rparr>) (products s)" for sh
    by (simp add: apply_filters_and_render_def)
  then have "filtered (step sh s (SortChange ''relevance'')) =
               sh (filter_products (read_filters (controls s)) (products s))" for sh
    by (simp only: apply_filters_relevance)
  then show ?thesis by (simp only: oracle_outcomes rand_sort_outcomes)
qed

lemma relevance_refinement_witness:
  "filtered (step rev start_state (SortChange ''relevance'')) \<in>
   {fst (rand_sort rs (filter_products (read_filters (controls start_state)) (products start_state))) |
      rs. valid_randoms rs}"
proof -
  have "filtered (step rev start_state (SortChange ''relevance'')) \<in>
          {filtered (step sh start_state (SortChange ''relevance'')) | sh. perm_oracle sh}"
    using perm_oracle_rev by blast
  then show ?thesis by (simp only: relevance_refinement)
qed

text \<open>
  Claim C4. The sort select dispatches on its value: choosing "price-asc", "price-desc" or
  "recent" recomputes the result as the filtered catalogue, under the other controls,
  stably sorted by ascending price, descending price or descending \<open>addedAt\<close>;
  "relevance" gives the engine's shuffle of it; any other value leaves it in catalogue order.
\<close>

theorem sort_select_dispatch:
  "let F = filter_products (read_filters (controls s)) (products s) in
   filtered (step sh s (SortChange ''price-asc'')) = sort_key price F \<and>
   filtered (step sh s (SortChange ''price-desc'')) = sort_key (\<lambda>p. - price p) F \<and>
   filtered (step sh s (SortChange ''recent'')) = sort_key (\<lambda>p. - addedAt p) F \<and>
   filtered (step sh s (SortChange ''relevance'')) = sh F \<and>
   (v \<notin> {''price-asc'', ''price-desc'', ''recent'', ''relevance''} \<longrightarrow>
    filtered (step sh s (SortChange v)) = F)"
  by (simp add: apply_filters_and_render_def apply_filters_def read_filters_sort_value
      sort_mode_of_def Let_def)

lemma sort_select_dispatch_witness:
  "filtered (step rev start_state (SortChange ''popular'')) =
   filter_products (read_filters (controls start_state)) (products start_state)"
  using sort_select_dispatch [of start_state rev "''popular''"]
  by (simp add: Let_def)

text \<open>
  Claim C24. When successive \<open>Date.now()\<close> readings during the seeding are less than
  1000 seconds apart, the "recent" order is exactly the catalogue order.
\<close>

theorem recent_is_catalogue_order:
  assumes gap: "\<forall>i<9. now (Suc i) - now i < 1000000"
  shows "apply_sort sh Recent (create_sample_products now) = create_sample_products now"
proof -
  have g: "now (Suc i) - now i < 1000000" if "i < 9" for i
    using gap that by blast
  note h = g [of 0] g [of 1] g [of 2] g [of 3] g [of 4] g [of 5] g [of 6] g [of 7] g [of 8]
  have "sorted (map (\<lambda>p. - addedAt p) (create_sample_products now))"
    using h by (simp add: create_sample_products_def numeral_eq_Suc)
  then show ?thesis by (simp add: sort_key_id_if_sorted)
qed

lemma recent_is_catalogue_order_witness:
  "apply_sort id Recent (create_sample_products (\<lambda>i. 1700000000000 + int i)) =
   create_sample_products (\<lambda>i. 1700000000000 + int i)"
  by (rule recent_is_catalogue_order) simp

end
